theory Spec2Isabelle
  imports Main "HOL-Library.Log_Nat" "HOL-Library.Sublist"
begin

section \<open>Python values used by app.py\<close>

subsection \<open>Strings\<close>

text \<open>
  A Python \<open>str\<close> is modelled as a \<^typ>\<open>string\<close> whose characters are the code
  points U+0000 to U+00FF (Latin-1). Letter case, white space and digits are Python's on
  these code points. Strings with code points beyond U+00FF are not part of the model.
\<close>

definition ascii_uppercase :: string where
  "ascii_uppercase = ''ABCDEFGHIJKLMNOPQRSTUVWXYZ''"

definition ascii_lowercase :: string where
  "ascii_lowercase = ''abcdefghijklmnopqrstuvwxyz''"

definition ascii_digits :: string where
  "ascii_digits = ''0123456789''"

text \<open>The upper-case letters of Latin-1 beyond ASCII, U+00C0 to U+00DE without the
  multiplication sign U+00D7, and their lower-case forms, U+00E0 to U+00FE without the
  division sign U+00F7.\<close>

definition latin1_uppercase :: string where
  "latin1_uppercase =
     [CHR 0xC0, CHR 0xC1, CHR 0xC2, CHR 0xC3, CHR 0xC4, CHR 0xC5, CHR 0xC6, CHR 0xC7,
      CHR 0xC8, CHR 0xC9, CHR 0xCA, CHR 0xCB, CHR 0xCC, CHR 0xCD, CHR 0xCE, CHR 0xCF,
      CHR 0xD0, CHR 0xD1, CHR 0xD2, CHR 0xD3, CHR 0xD4, CHR 0xD5, CHR 0xD6,
      CHR 0xD8, CHR 0xD9, CHR 0xDA, CHR 0xDB, CHR 0xDC, CHR 0xDD, CHR 0xDE]"

definition latin1_lowercase :: string where
  "latin1_lowercase =
     [CHR 0xE0, CHR 0xE1, CHR 0xE2, CHR 0xE3, CHR 0xE4, CHR 0xE5, CHR 0xE6, CHR 0xE7,
      CHR 0xE8, CHR 0xE9, CHR 0xEA, CHR 0xEB, CHR 0xEC, CHR 0xED, CHR 0xEE, CHR 0xEF,
      CHR 0xF0, CHR 0xF1, CHR 0xF2, CHR 0xF3, CHR 0xF4, CHR 0xF5, CHR 0xF6,
      CHR 0xF8, CHR 0xF9, CHR 0xFA, CHR 0xFB, CHR 0xFC, CHR 0xFD, CHR 0xFE]"

definition uppercase :: string where
  "uppercase = ascii_uppercase @ latin1_uppercase"

definition lowercase :: string where
  "lowercase = ascii_lowercase @ latin1_lowercase"

definition lower_char :: "char \<Rightarrow> char" where
  "lower_char c = (case map_of (zip uppercase lowercase) c of Some l \<Rightarrow> l | None \<Rightarrow> c)"

text \<open>\<open>s.lower()\<close>\<close>

definition py_lower :: "string \<Rightarrow> string" where
  "py_lower s = map lower_char s"

text \<open>\<open>c.isspace()\<close>: tab, line feed, vertical tab, form feed, carriage return, the four
  separators \<open>0x1C\<close> to \<open>0x1F\<close>, the space, the next-line control U+0085 and the
  no-break space U+00A0.\<close>

definition is_space :: "char \<Rightarrow> bool" where
  "is_space c =
     (c \<in> set [CHR 0x09, CHR 0x0A, CHR 0x0B, CHR 0x0C, CHR 0x0D,
                CHR 0x1C, CHR 0x1D, CHR 0x1E, CHR 0x1F, CHR 0x20, CHR 0x85, CHR 0xA0])"

text \<open>\<open>s.strip()\<close>\<close>

definition py_strip :: "string \<Rightarrow> string" where
  "py_strip s = rev (dropWhile is_space (rev (dropWhile is_space s)))"

text \<open>The white space \<open>float(s)\<close> ignores around its argument: \<open>float\<close> turns the
  white space beyond ASCII (U+0085, U+00A0) into spaces and then skips tab, line feed,
  vertical tab, form feed, carriage return and space; the separators \<open>0x1C\<close> to \<open>0x1F\<close>
  are not skipped.\<close>

definition is_float_space :: "char \<Rightarrow> bool" where
  "is_float_space c =
     (c \<in> set [CHR 0x09, CHR 0x0A, CHR 0x0B, CHR 0x0C, CHR 0x0D, CHR 0x20, CHR 0x85, CHR 0xA0])"

definition float_strip :: "string \<Rightarrow> string" where
  "float_strip s = rev (dropWhile is_float_space (rev (dropWhile is_float_space s)))"

definition is_digit :: "char \<Rightarrow> bool" where
  "is_digit c = (c \<in> set ascii_digits)"

definition is_lower_alnum :: "char \<Rightarrow> bool" where
  "is_lower_alnum c = (c \<in> set ascii_lowercase \<or> c \<in> set ascii_digits)"

definition is_alnum :: "char \<Rightarrow> bool" where
  "is_alnum c = (c \<in> set ascii_uppercase \<or> is_lower_alnum c)"

definition digit_val :: "char \<Rightarrow> int" where
  "digit_val c =
     (case map_of (zip ascii_digits [0, 1, 2, 3, 4, 5, 6, 7, 8, 9]) c of
        Some d \<Rightarrow> d | None \<Rightarrow> 0)"

subsection \<open>Exceptions\<close>

text \<open>
  Every exception below is a subclass of Python's \<open>Exception\<close>, so an
  \<open>except Exception\<close> clause catches each of them. A computation that may raise
  returns \<open>Inl\<close> of the exception or \<open>Inr\<close> of its value.
\<close>

datatype exn =
    ValueError string
  | TypeError string
  | OverflowError string
  | KeyError string
  | IndexError string
  | OtherException string

text \<open>\<open>try: return body  except Exception: return dflt\<close>\<close>

definition try_except :: "exn + 'a \<Rightarrow> 'a \<Rightarrow> exn + 'a" where
  "try_except body dflt = (case body of Inl e \<Rightarrow> Inr dflt | Inr v \<Rightarrow> Inr v)"

subsection \<open>Floats\<close>

text \<open>
  A Python \<open>float\<close> is an IEEE 754 binary64 value: a finite value (kept as the rational
  it denotes), an infinity, or NaN. The sign of zero is not kept.
  \<open>binary64 q\<close> is the float nearest to the rational \<open>q\<close>, ties to the even significand:
  53 significant bits, the least exponent \<open>-1022\<close> (below it the spacing stays
  \<open>2^-1074\<close>), and an infinity from \<open>2^1024 - 2^970\<close> onwards.
\<close>

datatype pyfloat = Fin rat | PInf | NInf | NaN

text \<open>The integer \<open>e\<close> with \<open>2^e \<le> a < 2^(e+1)\<close>, for \<open>a > 0\<close>.\<close>

definition ilog2 :: "rat \<Rightarrow> int" where
  "ilog2 a = (if 1 \<le> a then bitlen \<lfloor>a\<rfloor> - 1 else - bitlen (\<lceil>1 / a\<rceil> - 1))"

definition round_half_even :: "rat \<Rightarrow> int" where
  "round_half_even x =
     (let f = \<lfloor>x\<rfloor>; d = x - of_int f
      in if d < 1 / 2 then f else if 1 / 2 < d then f + 1 else if even f then f else f + 1)"

definition binary64 :: "rat \<Rightarrow> pyfloat" where
  "binary64 q =
     (if q = 0 then Fin 0
      else if 2 ^ 1024 - 2 ^ 970 \<le> \<bar>q\<bar> then (if 0 < q then PInf else NInf)
      else let a = \<bar>q\<bar>;
               u = power_int 2 (max (ilog2 a) (- 1022) - 52);
               v = of_int (round_half_even (a / u)) * u
           in Fin (if 0 < q then v else - v))"

text \<open>After a digit, one underscore may stand before the next digit.\<close>

definition skip_underscore :: "string \<Rightarrow> string" where
  "skip_underscore cs =
     (case cs of
        u # d # r \<Rightarrow> if u = CHR ''_'' \<and> is_digit d then d # r else cs
      | _ \<Rightarrow> cs)"

text \<open>The digits of \<open>digitpart ::= digit (["_"] digit)*\<close> at the head of a string,
  and what follows them.\<close>

function take_digitpart :: "string \<Rightarrow> string \<times> string" where
  "take_digitpart [] = ([], [])"
| "take_digitpart (c # cs) =
     (if is_digit c
      then (case take_digitpart (skip_underscore cs) of (ds, rest) \<Rightarrow> (c # ds, rest))
      else ([], c # cs))"
  by pat_completeness auto
termination
  by (relation "measure length") (auto simp: skip_underscore_def split: list.splits)

definition int_of_digits :: "string \<Rightarrow> int" where
  "int_of_digits ds = foldl (\<lambda>n c. 10 * n + digit_val c) 0 ds"

text \<open>\<open>exponent ::= ("e" | "E") [sign] digitpart\<close>, to the end of the string; no
  exponent is the exponent 0.\<close>

definition parse_exponent :: "string \<Rightarrow> int option" where
  "parse_exponent s =
     (case s of
        [] \<Rightarrow> Some 0
      | c # cs \<Rightarrow>
          if c = CHR ''e'' \<or> c = CHR ''E'' then
            (case take_digitpart
                    (case cs of
                       x # xs \<Rightarrow> if x = CHR ''-'' \<or> x = CHR ''+'' then xs else cs
                     | [] \<Rightarrow> cs) of
               (ds, rest) \<Rightarrow>
                 if ds = [] \<or> rest \<noteq> [] then None
                 else Some (case cs of
                              x # _ \<Rightarrow> if x = CHR ''-'' then - int_of_digits ds
                                       else int_of_digits ds
                            | [] \<Rightarrow> int_of_digits ds))
          else None)"

text \<open>\<open>floatnumber ::= number [exponent]\<close> with
  \<open>number ::= [digitpart] "." digitpart | digitpart ["."]\<close>: the number it denotes.\<close>

definition parse_floatnumber :: "string \<Rightarrow> rat option" where
  "parse_floatnumber s =
     (case take_digitpart s of
        (ip, r1) \<Rightarrow>
          (case (case r1 of
                   c # cs \<Rightarrow> if c = CHR ''.'' then take_digitpart cs else ([], r1)
                 | [] \<Rightarrow> ([], r1)) of
             (fp, r2) \<Rightarrow>
               if ip = [] \<and> fp = [] then None
               else (case parse_exponent r2 of
                       None \<Rightarrow> None
                     | Some e \<Rightarrow>
                         Some (of_int (int_of_digits (ip @ fp))
                               * power_int 10 (e - int (length fp))))))"

text \<open>An optional sign at the head of a string: whether it is a minus, and the rest.\<close>

definition split_sign :: "string \<Rightarrow> bool \<times> string" where
  "split_sign s =
     (case s of
        c # cs \<Rightarrow>
          if c = CHR ''-'' then (True, cs) else if c = CHR ''+'' then (False, cs)
          else (False, s)
      | [] \<Rightarrow> (False, s))"

text \<open>\<open>[sign] floatnumber\<close>: the decimal number a string denotes, if it is one.\<close>

definition decimal_number :: "string \<Rightarrow> rat option" where
  "decimal_number s =
     (case split_sign s of
        (neg, body) \<Rightarrow>
          (case parse_floatnumber body of
             Some q \<Rightarrow> Some (if neg then - q else q)
           | None \<Rightarrow> None))"

text \<open>\<open>float(s)\<close> for a string \<open>s\<close>: the white space around it is ignored, then an
  optional sign and \<open>inf\<close>, \<open>infinity\<close> or \<open>nan\<close> in any letter case, or a decimal
  number, rounded to the nearest float; anything else raises \<open>ValueError\<close>.\<close>

definition py_float :: "string \<Rightarrow> exn + pyfloat" where
  "py_float s0 =
     (case split_sign (float_strip s0) of
        (neg, body) \<Rightarrow>
          if py_lower body = ''inf'' \<or> py_lower body = ''infinity''
          then Inr (if neg then NInf else PInf)
          else if py_lower body = ''nan'' then Inr NaN
          else (case decimal_number (float_strip s0) of
                  Some q \<Rightarrow> Inr (binary64 q)
                | None \<Rightarrow> Inl (ValueError ''could not convert string to float'')))"

text \<open>\<open>int(x)\<close> for a float \<open>x\<close>: truncation toward zero; an infinity raises
  \<open>OverflowError\<close>, NaN raises \<open>ValueError\<close>.\<close>

definition int_trunc :: "rat \<Rightarrow> int" where
  "int_trunc q = (if 0 \<le> q then \<lfloor>q\<rfloor> else - \<lfloor>- q\<rfloor>)"

definition py_int :: "pyfloat \<Rightarrow> exn + int" where
  "py_int x =
     (case x of
        Fin q \<Rightarrow> Inr (int_trunc q)
      | NaN \<Rightarrow> Inl (ValueError ''cannot convert float NaN to integer'')
      | _ \<Rightarrow> Inl (OverflowError ''cannot convert float infinity to integer''))"

section \<open>Row Normalizer: numeric coercion\<close>

text \<open>
  A spreadsheet cell as the code observes it, through \<open>pd.isna(val)\<close> and \<open>str(val)\<close>:
  \<^item> \<open>Null s\<close>: a missing value (\<open>None\<close>, NaN, \<open>NaT\<close>, \<open>pd.NA\<close>) whose \<open>str\<close> is \<open>s\<close>
    (\<open>nan\<close> for NaN);
  \<^item> \<open>Scalar s\<close>: any other scalar (text, integer, float, boolean, date), whose \<open>str\<close>
    is \<open>s\<close>;
  \<^item> \<open>Object t s\<close>: any other object, with the outcome \<open>t\<close> of testing
    \<open>if pd.isna(val)\<close> and the outcome \<open>s\<close> of \<open>str(val)\<close>, each a value or an exception.
\<close>

datatype cell = Null string | Scalar string | Object "exn + bool" "exn + string"

definition pd_isna :: "cell \<Rightarrow> exn + bool" where
  "pd_isna val = (case val of Null _ \<Rightarrow> Inr True | Scalar _ \<Rightarrow> Inr False | Object t _ \<Rightarrow> t)"

definition py_str :: "cell \<Rightarrow> exn + string" where
  "py_str val = (case val of Null s \<Rightarrow> Inr s | Scalar s \<Rightarrow> Inr s | Object _ s \<Rightarrow> s)"

text \<open>The body of the \<open>try\<close> block of \<open>to_int\<close> (app.py, lines 56 to 58).\<close>

definition to_int_body :: "cell \<Rightarrow> exn + int" where
  "to_int_body val =
     (case pd_isna val of
        Inl e \<Rightarrow> Inl e
      | Inr True \<Rightarrow> Inr 0
      | Inr False \<Rightarrow>
          (case py_str val of
             Inl e \<Rightarrow> Inl e
           | Inr s \<Rightarrow>
               (case py_float (py_strip s) of
                  Inl e \<Rightarrow> Inl e
                | Inr x \<Rightarrow> py_int x)))"

definition to_int :: "cell \<Rightarrow> exn + int" where
  "to_int val = try_except (to_int_body val) 0"

text \<open>\<open>s.replace(",", "")\<close>\<close>

definition remove_commas :: "string \<Rightarrow> string" where
  "remove_commas s = filter (\<lambda>c. c \<noteq> CHR '','') s"

text \<open>The body of the \<open>try\<close> block of \<open>to_float\<close> (app.py, lines 65 to 67).\<close>

definition to_float_body :: "cell \<Rightarrow> exn + pyfloat" where
  "to_float_body val =
     (case pd_isna val of
        Inl e \<Rightarrow> Inl e
      | Inr True \<Rightarrow> Inr (Fin 0)
      | Inr False \<Rightarrow>
          (case py_str val of
             Inl e \<Rightarrow> Inl e
           | Inr s \<Rightarrow> py_float (remove_commas (py_strip s))))"

definition to_float :: "cell \<Rightarrow> exn + pyfloat" where
  "to_float val = try_except (to_float_body val) (Fin 0)"

section \<open>Column Resolver\<close>

text \<open>\<open>CANDIDATES\<close> (app.py, lines 19 to 27): a dictionary, kept in the order it is
  written.\<close>

definition CANDIDATES :: "(string \<times> string list) list" where
  "CANDIDATES =
     [(''model'', [''model'', ''partno'', ''partnumber'', ''itemcode'', ''material'']),
      (''material_description'',
         [''materialdescription'', ''description'', ''desc'', ''itemdesc'', ''materialdesc'']),
      (''shrm'', [''shrm'', ''showroom'']),
      (''home'', [''home'', ''godown'', ''warehouse'']),
      (''stock'', [''stock'', ''qty'', ''quantity'', ''onhand'']),
      (''used_spares'', [''usedspares'', ''used spares'', ''used'']),
      (''price'', [''price'', ''unitprice'', ''cost'', ''salesprice''])]"

text \<open>\<open>CANDIDATES[key]\<close>, for a key of the dictionary.\<close>

definition candidates_of :: "string \<Rightarrow> string list" where
  "candidates_of key = (case map_of CANDIDATES key of Some options \<Rightarrow> options | None \<Rightarrow> [])"

text \<open>\<open>_norm(s) = re.sub(r"[^a-z0-9]", "", str(s).strip().lower())\<close> (app.py, lines 31
  and 32), for a header that is a string.\<close>

definition norm :: "string \<Rightarrow> string" where
  "norm s = filter is_lower_alnum (py_lower (py_strip s))"

text \<open>\<open>{_norm(c): c for c in df_columns}\<close>: of two headers with one normal form the
  later one stays.\<close>

definition norm_to_actual :: "string list \<Rightarrow> (string \<rightharpoonup> string)" where
  "norm_to_actual df_columns = fold (\<lambda>c m. m(norm c \<mapsto> c)) df_columns Map.empty"

text \<open>The inner loop of \<open>build_column_map\<close> (lines 39 to 43): the header of the first
  option whose normal form is a key of \<open>norm_to_actual\<close>.\<close>

fun first_option :: "(string \<rightharpoonup> string) \<Rightarrow> string list \<Rightarrow> string option" where
  "first_option nta [] = None"
| "first_option nta (opt # options) =
     (case nta (norm opt) of
        Some actual \<Rightarrow> Some actual
      | None \<Rightarrow> first_option nta options)"

text \<open>The outer loop (lines 37 to 43), over the items of a dictionary of candidates.\<close>

definition resolve_columns ::
  "(string \<rightharpoonup> string) \<Rightarrow> (string \<times> string list) list \<Rightarrow> (string \<rightharpoonup> string)" where
  "resolve_columns nta candidates =
     fold (\<lambda>(key, options) colmap.
             case first_option nta options of
               Some actual \<Rightarrow> colmap(key \<mapsto> actual)
             | None \<Rightarrow> colmap)
          candidates Map.empty"

text \<open>\<open>repr\<close> of a list of strings that hold no quote, backslash or control
  character.\<close>

fun join :: "string \<Rightarrow> string list \<Rightarrow> string" where
  "join sep [] = []"
| "join sep [x] = x"
| "join sep (x # y # ys) = x @ sep @ join sep (y # ys)"

definition py_repr_str :: "string \<Rightarrow> string" where
  "py_repr_str s = [CHR 0x27] @ s @ [CHR 0x27]"

definition py_repr_list :: "string list \<Rightarrow> string" where
  "py_repr_list xs = ''['' @ join '', '' (map py_repr_str xs) @ '']''"

text \<open>The message of the \<open>ValueError\<close> raised at lines 46 to 50.\<close>

definition schema_error_message :: string where
  "schema_error_message =
     ''Your sheet must have columns for Model and Description (with any of these headers):''
     @ [CHR 0x0A, CHR 0x0A]
     @ ''Model: '' @ py_repr_list (candidates_of ''model'') @ [CHR 0x0A]
     @ ''Description: '' @ py_repr_list (candidates_of ''material_description'')"

text \<open>\<open>build_column_map\<close> (app.py, lines 35 to 51).\<close>

definition build_column_map :: "string list \<Rightarrow> exn + (string \<rightharpoonup> string)" where
  "build_column_map df_columns =
     (let colmap = resolve_columns (norm_to_actual df_columns) CANDIDATES
      in if colmap ''model'' = None \<or> colmap ''material_description'' = None
         then Inl (ValueError schema_error_message)
         else Inr colmap)"

text \<open>The normal form of a header in the words of the specification: lower-case, strip
  the surrounding white space, delete every character that is not a lowercase letter or
  a digit.\<close>

definition spec_norm :: "string \<Rightarrow> string" where
  "spec_norm s = filter is_lower_alnum (py_strip (py_lower s))"

section \<open>Row Normalizer: build_app_df\<close>

text \<open>
  The sheet as pandas read it: the column labels and, for every row, the cell under each
  label. A label without a cell in some row reads as NaN there.
\<close>

record raw_df =
  columns :: "string list"
  rows :: "(string \<rightharpoonup> cell) list"

text \<open>\<open>raw_df[c]\<close>: the cells of one column, or \<open>KeyError\<close>.\<close>

definition getitem :: "raw_df \<Rightarrow> string \<Rightarrow> exn + cell list" where
  "getitem df c =
     (if c \<in> set (columns df)
      then Inr (map (\<lambda>row. case row c of Some v \<Rightarrow> v | None \<Rightarrow> Null ''nan'') (rows df))
      else Inl (KeyError c))"

text \<open>\<open>col_series\<close> (app.py, lines 76 to 79); \<open>n = len(raw_df)\<close>.\<close>

definition col_series :: "raw_df \<Rightarrow> (string \<rightharpoonup> string) \<Rightarrow> string \<Rightarrow> cell \<Rightarrow> exn + cell list" where
  "col_series df colmap key dflt =
     (case colmap key of
        Some c \<Rightarrow> getitem df c
      | None \<Rightarrow> Inr (replicate (length (rows df)) dflt))"

text \<open>\<open>series.fillna(v)\<close>: the missing values of the series become the string \<open>v\<close>.\<close>

definition fillna :: "string \<Rightarrow> cell list \<Rightarrow> cell list" where
  "fillna v series = map (\<lambda>c. case c of Null _ \<Rightarrow> Scalar v | _ \<Rightarrow> c) series"

text \<open>A function applied to every element of a series; the first exception it raises
  ends the whole operation.\<close>

fun mapE :: "('a \<Rightarrow> exn + 'b) \<Rightarrow> 'a list \<Rightarrow> exn + 'b list" where
  "mapE f [] = Inr []"
| "mapE f (x # xs) =
     (case f x of
        Inl e \<Rightarrow> Inl e
      | Inr y \<Rightarrow> (case mapE f xs of Inl e \<Rightarrow> Inl e | Inr ys \<Rightarrow> Inr (y # ys)))"

text \<open>\<open>series.astype(str)\<close> and \<open>series.replace(old, new)\<close> on strings.\<close>

definition astype_str :: "cell list \<Rightarrow> exn + string list" where
  "astype_str series = mapE py_str series"

definition replace_str :: "string \<Rightarrow> string \<Rightarrow> string list \<Rightarrow> string list" where
  "replace_str old new series = map (\<lambda>s. if s = old then new else s) series"

text \<open>A Stock Record: one row of the frame \<open>build_app_df\<close> returns.\<close>

record stock_record =
  model :: string
  material_description :: string
  shrm :: string
  home :: string
  stock :: int
  used_spares :: int
  price :: pyfloat

text \<open>\<open>pd.DataFrame({...})\<close> of seven series of one length (lines 100 to 110).\<close>

definition data_frame ::
  "string list \<Rightarrow> string list \<Rightarrow> string list \<Rightarrow> string list \<Rightarrow> int list \<Rightarrow> int list
     \<Rightarrow> pyfloat list \<Rightarrow> stock_record list" where
  "data_frame ms ds ss hs sts us ps =
     map (\<lambda>(m, d, s, h, st, u, p).
            \<lparr>model = m, material_description = d, shrm = s, home = h,
             stock = st, used_spares = u, price = p\<rparr>)
         (zip ms (zip ds (zip ss (zip hs (zip sts (zip us ps))))))"

text \<open>Sequencing of statements that may raise.\<close>

definition and_then :: "exn + 'a \<Rightarrow> ('a \<Rightarrow> exn + 'b) \<Rightarrow> exn + 'b" where
  "and_then m f = (case m of Inl e \<Rightarrow> Inl e | Inr x \<Rightarrow> f x)"

text \<open>\<open>build_app_df\<close> (app.py, lines 72 to 112). The default of an absent column is the
  empty string for the four text fields and the integer 0 for \<open>price\<close>; \<open>stock\<close> and
  \<open>used_spares\<close> are a series of zeros when their column is absent.\<close>

definition build_app_df :: "raw_df \<Rightarrow> (string \<rightharpoonup> string) \<Rightarrow> exn + stock_record list" where
  "build_app_df df colmap =
     and_then (col_series df colmap ''model'' (Scalar [])) (\<lambda>model_col.
     and_then (col_series df colmap ''material_description'' (Scalar [])) (\<lambda>desc_col.
     and_then (col_series df colmap ''shrm'' (Scalar [])) (\<lambda>shrm_col.
     and_then (col_series df colmap ''home'' (Scalar [])) (\<lambda>home_col.
     and_then (if colmap ''stock'' \<noteq> None
               then and_then (col_series df colmap ''stock'' (Scalar ''0'')) (mapE to_int)
               else Inr (replicate (length (rows df)) 0)) (\<lambda>stock_col.
     and_then (if colmap ''used_spares'' \<noteq> None
               then and_then (col_series df colmap ''used_spares'' (Scalar ''0'')) (mapE to_int)
               else Inr (replicate (length (rows df)) 0)) (\<lambda>used_col.
     and_then (and_then (col_series df colmap ''price'' (Scalar ''0'')) (mapE to_float))
       (\<lambda>price_col.
     and_then (astype_str model_col) (\<lambda>model_str.
     and_then (astype_str desc_col) (\<lambda>desc_str.
     and_then (astype_str (fillna ''N-A'' shrm_col)) (\<lambda>shrm_str.
     and_then (astype_str (fillna ''N-A'' home_col)) (\<lambda>home_str.
       Inr (data_frame model_str desc_str
              (replace_str ''nan'' ''N-A'' shrm_str) (replace_str ''nan'' ''N-A'' home_str)
              stock_col used_col price_col))))))))))))"

text \<open>The cell of a row under the column resolved for a field, if the field is
  resolved.\<close>

definition cell_of :: "(string \<rightharpoonup> cell) \<Rightarrow> (string \<rightharpoonup> string) \<Rightarrow> string \<Rightarrow> cell option" where
  "cell_of row colmap key =
     (case colmap key of
        None \<Rightarrow> None
      | Some c \<Rightarrow> Some (case row c of Some v \<Rightarrow> v | None \<Rightarrow> Null ''nan''))"

text \<open>\<open>x >= 0.0\<close> for a float.\<close>

definition float_ge0 :: "pyfloat \<Rightarrow> bool" where
  "float_ge0 x = (case x of Fin q \<Rightarrow> 0 \<le> q | PInf \<Rightarrow> True | _ \<Rightarrow> False)"

text \<open>The two steps of \<open>load_master_to_session\<close> on the sheet read from the master
  file (app.py, lines 177 and 178).\<close>

definition load_frame :: "raw_df \<Rightarrow> exn + stock_record list" where
  "load_frame df = and_then (build_column_map (columns df)) (build_app_df df)"

section \<open>Search/Match Engine\<close>

subsection \<open>Regular expressions of escaped literals\<close>

text \<open>
  \<open>re.escape(s)\<close>: a backslash is put before every character of \<open>_special_chars_map\<close>,
  the characters \<open>( ) [ ] { } ? * + - | ^ $ \ . & ~ #\<close>, the space, tab, line feed,
  carriage return, vertical tab and form feed.
\<close>

definition backslash :: char where
  "backslash = CHR 0x5C"

definition re_special :: string where
  "re_special =
     ''()[]{}?*+-|^$'' @ [backslash] @ ''.&~# '' @ [CHR 0x09, CHR 0x0A, CHR 0x0D, CHR 0x0B, CHR 0x0C]"

definition re_escape :: "string \<Rightarrow> string" where
  "re_escape s = concat (map (\<lambda>c. if c \<in> set re_special then [backslash, c] else [c]) s)"

text \<open>
  The patterns app.py compiles are \<open>re.escape(q)\<close> and \<open>"^" + re.escape(q)\<close>. The
  model reads a pattern of this fragment: a backslash followed by a character that is
  no letter and no digit is that character, \<open>^\<close> is the start of the string, a character
  that is no metacharacter is itself. Any other pattern (an unescaped metacharacter, a
  backslash before a letter or digit or at the end) is outside the fragment: \<open>None\<close>.
\<close>

datatype re_token = Lit char | Bol

definition re_meta :: string where
  "re_meta = ''.^$*+?{}[]|()'' @ [backslash]"

function re_tokens :: "string \<Rightarrow> re_token list option" where
  "re_tokens [] = Some []"
| "re_tokens (c # cs) =
     (if c = backslash then
        (case cs of
           [] \<Rightarrow> None
         | d # ds \<Rightarrow> if is_alnum d then None else map_option ((#) (Lit d)) (re_tokens ds))
      else if c = CHR ''^'' then map_option ((#) Bol) (re_tokens cs)
      else if c \<in> set re_meta then None
      else map_option ((#) (Lit c)) (re_tokens cs))"
  by pat_completeness auto
termination
  by (relation "measure length") auto

text \<open>
  Matching with \<open>re.IGNORECASE\<close>: a literal matches a character with the same lower-case
  form. \<open>match_here ts s b\<close>: the tokens match at the head of \<open>s\<close>, where \<open>b\<close> says
  whether that is the start of the subject (\<open>re.match\<close>); \<open>search_from\<close>: they match at
  some position of \<open>s\<close> (\<open>re.search\<close>).
\<close>

fun match_here :: "re_token list \<Rightarrow> string \<Rightarrow> bool \<Rightarrow> bool" where
  "match_here [] s b = True"
| "match_here (Bol # ts) s b = (b \<and> match_here ts s b)"
| "match_here (Lit c # ts) [] b = False"
| "match_here (Lit c # ts) (x # xs) b = (lower_char x = lower_char c \<and> match_here ts xs False)"

fun search_from :: "re_token list \<Rightarrow> string \<Rightarrow> bool \<Rightarrow> bool" where
  "search_from ts [] b = match_here ts [] b"
| "search_from ts (x # xs) b = (match_here ts (x # xs) b \<or> search_from ts xs False)"

text \<open>\<open>series.str.contains(pat, case=False, na=False)\<close> and
  \<open>series.str.match(pat, case=False, na=False)\<close> on one string of the series.\<close>

definition str_contains :: "string \<Rightarrow> string \<Rightarrow> bool option" where
  "str_contains pat s = map_option (\<lambda>ts. search_from ts s True) (re_tokens pat)"

definition str_match :: "string \<Rightarrow> string \<Rightarrow> bool option" where
  "str_match pat s = map_option (\<lambda>ts. match_here ts s True) (re_tokens pat)"

text \<open>\<open>a & b\<close> and \<open>a | b\<close> on one element of two masks.\<close>

definition mask_and :: "bool option \<Rightarrow> bool option \<Rightarrow> bool option" where
  "mask_and a b =
     (case a of None \<Rightarrow> None | Some x \<Rightarrow> (case b of None \<Rightarrow> None | Some y \<Rightarrow> Some (x \<and> y)))"

definition mask_or :: "bool option \<Rightarrow> bool option \<Rightarrow> bool option" where
  "mask_or a b =
     (case a of None \<Rightarrow> None | Some x \<Rightarrow> (case b of None \<Rightarrow> None | Some y \<Rightarrow> Some (x \<or> y)))"

subsection \<open>The query\<close>

definition separator :: string where
  "separator = '' - ''"

text \<open>\<open>sub in s\<close>\<close>

fun str_in :: "string \<Rightarrow> string \<Rightarrow> bool" where
  "str_in sub [] = (sub = [])"
| "str_in sub (c # cs) = (prefix sub (c # cs) \<or> str_in sub cs)"

text \<open>\<open>s.split(sep, 1)\<close> for a separator that is not empty: the parts before and after
  the first occurrence of the separator, or the string itself.\<close>

fun split_once :: "string \<Rightarrow> string \<Rightarrow> (string \<times> string) option" where
  "split_once sep [] = None"
| "split_once sep (c # cs) =
     (if prefix sep (c # cs) then Some ([], drop (length sep) (c # cs))
      else map_option (\<lambda>(a, b). (c # a, b)) (split_once sep cs))"

definition py_split1 :: "string \<Rightarrow> string \<Rightarrow> string list" where
  "py_split1 sep s = (case split_once sep s of Some (a, b) \<Rightarrow> [a, b] | None \<Rightarrow> [s])"

subsection \<open>Tab 1: the live filter and the hits of Add to List\<close>

text \<open>
  The mask of the live filter on one record (app.py, lines 333 to 345). \<open>None\<close> stands
  for a run that does not reach a mask: the unpacking of the split raises, or a pattern
  is outside the modelled fragment.
\<close>

definition filter_mask :: "string \<Rightarrow> stock_record \<Rightarrow> bool option" where
  "filter_mask q r =
     (if str_in separator q then
        (case py_split1 separator q of
           [q_model, q_desc] \<Rightarrow>
             mask_and (str_contains (re_escape q_model) (model r))
                      (str_contains (re_escape q_desc) (material_description r))
         | _ \<Rightarrow> None)
      else mask_or (str_contains (re_escape q) (model r))
                   (str_contains (re_escape q) (material_description r)))"

text \<open>\<open>df[mask]\<close>: the rows whose mask element is true, in their order.\<close>

fun select :: "('a \<Rightarrow> bool option) \<Rightarrow> 'a list \<Rightarrow> 'a list option" where
  "select mask_of [] = Some []"
| "select mask_of (r # rs) =
     (case mask_of r of
        None \<Rightarrow> None
      | Some b \<Rightarrow> map_option (\<lambda>xs. if b then r # xs else xs) (select mask_of rs))"

text \<open>What tab 1 shows for a search value (lines 331 to 359): the prompt when it is
  empty, otherwise the filtered rows.\<close>

datatype spare_view = Prompt | Spare_rows "stock_record list"

definition tab1_view :: "string \<Rightarrow> stock_record list \<Rightarrow> spare_view option" where
  "tab1_view search_value df =
     (if search_value \<noteq> [] then map_option Spare_rows (select (filter_mask search_value) df)
      else Some Prompt)"

text \<open>The mask of the hits of Add to List on one record (lines 363 to 376).\<close>

definition add_mask :: "string \<Rightarrow> stock_record \<Rightarrow> bool option" where
  "add_mask q r =
     (if str_in separator q then
        (case py_split1 separator q of
           [q_model, q_desc] \<Rightarrow>
             mask_and (str_contains (re_escape q_model) (model r))
                      (str_contains (re_escape q_desc) (material_description r))
         | _ \<Rightarrow> None)
      else mask_or (str_match (''^'' @ re_escape q) (model r))
                   (str_contains (re_escape q) (material_description r)))"

definition add_hits :: "string \<Rightarrow> stock_record list \<Rightarrow> stock_record list option" where
  "add_hits q df = select (add_mask q) df"

text \<open>The literal tests of the specification: case-insensitive substring and prefix.\<close>

definition ci_contains :: "string \<Rightarrow> string \<Rightarrow> bool" where
  "ci_contains q s = sublist (py_lower q) (py_lower s)"

definition ci_startswith :: "string \<Rightarrow> string \<Rightarrow> bool" where
  "ci_startswith q s = prefix (py_lower q) (py_lower s)"

section \<open>Properties\<close>

subsection \<open>Evaluation of the float model on numerals\<close>

lemma bitlen_numeral: "bitlen (numeral n) = bitlen (numeral n div 2) + 1"
  by (subst compute_bitlen) simp

lemma bitlen_one: "bitlen 1 = 1"
  by (subst compute_bitlen) simp

lemma floor_numeral_div: "\<lfloor>(numeral a :: rat) / numeral b\<rfloor> = numeral a div numeral b"
  using floor_divide_of_int_eq [of "numeral a" "numeral b", where ?'a = rat] by simp

lemma ceiling_numeral_div:
  "\<lceil>(numeral a :: rat) / numeral b\<rceil> = - ((- numeral a) div numeral b)"
  using floor_divide_of_int_eq [of "- numeral a" "numeral b", where ?'a = rat]
  by (simp add: ceiling_def)

lemmas str_eval = py_strip_def is_space_def float_strip_def is_float_space_def py_lower_def
  lower_char_def uppercase_def lowercase_def ascii_uppercase_def ascii_lowercase_def
  latin1_uppercase_def latin1_lowercase_def ascii_digits_def is_digit_def skip_underscore_def

lemmas float_eval = str_eval py_float_def split_sign_def decimal_number_def digit_val_def int_of_digits_def parse_exponent_def
  parse_floatnumber_def binary64_def ilog2_def round_half_even_def int_trunc_def py_int_def
  Let_def bitlen_numeral bitlen_one floor_numeral_div ceiling_numeral_div

lemmas coerce_eval = float_eval to_int_def to_int_body_def to_float_def to_float_body_def
  try_except_def pd_isna_def py_str_def remove_commas_def


subsection \<open>Numeric coercion\<close>

lemma try_except_total: "\<exists>v. try_except body d = Inr v"
  by (cases body) (simp_all add: try_except_def)

lemma dropWhile_rev_dropWhile:
  assumes "xs \<noteq> []" "\<not> P (hd xs)"
  shows "rev (dropWhile P (rev xs)) \<noteq> [] \<and> hd (rev (dropWhile P (rev xs))) = hd xs"
proof -
  from assms obtain x ys where xs: "xs = x # ys" and x: "\<not> P x"
    by (cases xs) auto
  have "dropWhile P (rev ys @ [x]) = dropWhile P (rev ys) @ [x]"
    using x by (simp add: dropWhile_append)
  then show ?thesis
    by (simp add: xs)
qed

lemma strip_ends:
  assumes "rev (dropWhile P (rev (dropWhile P s))) \<noteq> []"
  shows "\<not> P (hd (rev (dropWhile P (rev (dropWhile P s)))))
         \<and> \<not> P (last (rev (dropWhile P (rev (dropWhile P s)))))"
proof -
  let ?u = "dropWhile P s"
  let ?w = "dropWhile P (rev ?u)"
  from assms have w: "?w \<noteq> []" by simp
  then have u: "?u \<noteq> []"
    by (metis dropWhile.simps(1) rev.simps(1))
  have hd_u: "\<not> P (hd ?u)"
    using u hd_dropWhile by blast
  have "\<not> P (hd ?w)"
    using w hd_dropWhile by blast
  moreover have "last (rev ?w) = hd ?w"
    using w by (simp add: last_rev)
  moreover have "hd (rev ?w) = hd ?u"
    using dropWhile_rev_dropWhile [of ?u P, OF u hd_u] by simp
  ultimately show ?thesis
    using hd_u by simp
qed

lemma strip_fixed:
  assumes "t \<noteq> [] \<Longrightarrow> \<not> Q (hd t) \<and> \<not> Q (last t)"
  shows "rev (dropWhile Q (rev (dropWhile Q t))) = t"
proof (cases t)
  case Nil
  then show ?thesis by simp
next
  case (Cons c cs)
  with assms have h: "\<not> Q (hd t)" and l: "\<not> Q (last t)" by simp_all
  have front: "dropWhile Q t = t"
    using h Cons by simp
  have "rev t \<noteq> []"
    using Cons by simp
  then obtain x xs where r: "rev t = x # xs"
    by (cases "rev t") blast+
  have "hd (rev t) = last t"
    using Cons by (simp add: hd_rev)
  then have "x = last t"
    unfolding r by simp
  then have "dropWhile Q (x # xs) = x # xs"
    using l by simp
  then have "dropWhile Q (rev t) = rev t"
    unfolding r .
  then show ?thesis
    by (simp add: front)
qed

lemma py_strip_idem: "py_strip (py_strip s) = py_strip s"
  using strip_fixed [of "py_strip s" is_space] strip_ends [of is_space s]
  by (simp add: py_strip_def)

lemma float_space_is_space: "is_float_space c \<Longrightarrow> is_space c"
  by (auto simp: is_float_space_def is_space_def)

lemma float_strip_py_strip: "float_strip (py_strip s) = py_strip s"
proof -
  have "\<not> is_float_space (hd (py_strip s)) \<and> \<not> is_float_space (last (py_strip s))"
    if "py_strip s \<noteq> []"
    using strip_ends [of is_space s] that float_space_is_space
    unfolding py_strip_def by blast
  from strip_fixed [of "py_strip s" is_float_space, OF this] show ?thesis
    by (simp add: float_strip_def)
qed

lemma parse_floatnumber_Nil: "parse_floatnumber [] = None"
  by (simp add: parse_floatnumber_def)

lemma parse_floatnumber_head:
  assumes "parse_floatnumber (c # cs) = Some r"
  shows "is_digit c \<or> c = CHR ''.''"
proof (rule ccontr)
  assume n: "\<not> (is_digit c \<or> c = CHR ''.'')"
  then have "take_digitpart (c # cs) = ([], c # cs)" by simp
  with n have "parse_floatnumber (c # cs) = None"
    by (simp add: parse_floatnumber_def)
  with assms show False by simp
qed

lemma length_uppercase: "length uppercase = length lowercase"
  by (simp add: uppercase_def lowercase_def ascii_uppercase_def ascii_lowercase_def
      latin1_uppercase_def latin1_lowercase_def)

lemma lower_char_id: "c \<notin> set uppercase \<Longrightarrow> lower_char c = c"
proof -
  assume "c \<notin> set uppercase"
  then have "map_of (zip uppercase lowercase) c = None"
    using length_uppercase by (simp add: map_of_zip_is_None)
  then show ?thesis by (simp add: lower_char_def)
qed

lemma lower_char_digit_dot:
  assumes "is_digit c \<or> c = CHR ''.''"
  shows "lower_char c \<noteq> CHR ''i'' \<and> lower_char c \<noteq> CHR ''n''"
proof -
  from assms have "c \<notin> set uppercase"
    by (auto simp: is_digit_def ascii_digits_def uppercase_def ascii_uppercase_def
        latin1_uppercase_def)
  then have "lower_char c = c" by (rule lower_char_id)
  then show ?thesis
    using assms by (auto simp: is_digit_def ascii_digits_def)
qed

lemma parse_floatnumber_not_special:
  assumes "parse_floatnumber t = Some r"
  shows "py_lower t \<noteq> ''inf'' \<and> py_lower t \<noteq> ''infinity'' \<and> py_lower t \<noteq> ''nan''"
proof (cases t)
  case Nil
  with assms show ?thesis by (simp add: parse_floatnumber_Nil)
next
  case (Cons c cs)
  with assms lower_char_digit_dot [OF parse_floatnumber_head] 
  have "lower_char c \<noteq> CHR ''i'' \<and> lower_char c \<noteq> CHR ''n''" by blast
  with Cons show ?thesis by (auto simp: py_lower_def)
qed

lemma py_float_decimal:
  assumes "decimal_number (float_strip s) = Some q"
  shows "py_float s = Inr (binary64 q)"
proof -
  obtain neg body where sp: "split_sign (float_strip s) = (neg, body)"
    by (cases "split_sign (float_strip s)")
  from assms sp obtain r where r: "parse_floatnumber body = Some r"
    by (cases "parse_floatnumber body") (simp_all add: decimal_number_def)
  from parse_floatnumber_not_special [OF r] assms sp show ?thesis
    by (simp add: py_float_def)
qed

lemma to_int_Null: "to_int (Null s) = Inr 0"
  by (simp add: to_int_def to_int_body_def try_except_def pd_isna_def)

lemma to_float_Null: "to_float (Null s) = Inr (Fin 0)"
  by (simp add: to_float_def to_float_body_def try_except_def pd_isna_def)

lemma to_int_text:
  "pd_isna val = Inr False \<Longrightarrow> py_str val = Inr s \<Longrightarrow>
   to_int val = Inr (case py_float (py_strip s) of Inr (Fin q) \<Rightarrow> int_trunc q | _ \<Rightarrow> 0)"
  by (simp add: to_int_def to_int_body_def try_except_def py_int_def
      split: sum.splits pyfloat.splits)

lemma to_float_text:
  "pd_isna val = Inr False \<Longrightarrow> py_str val = Inr s \<Longrightarrow>
   to_float val
     = Inr (case py_float (remove_commas (py_strip s)) of Inr x \<Rightarrow> x | Inl _ \<Rightarrow> Fin 0)"
  by (simp add: to_float_def to_float_body_def try_except_def split: sum.splits)

lemma to_int_Scalar:
  "to_int (Scalar s) = Inr (case py_float (py_strip s) of Inr (Fin q) \<Rightarrow> int_trunc q | _ \<Rightarrow> 0)"
  by (rule to_int_text) (simp_all add: pd_isna_def py_str_def)

lemma to_float_Scalar:
  "to_float (Scalar s)
     = Inr (case py_float (remove_commas (py_strip s)) of Inr x \<Rightarrow> x | Inl _ \<Rightarrow> Fin 0)"
  by (rule to_float_text) (simp_all add: pd_isna_def py_str_def)

lemma to_int_Object:
  "to_int (Object t u)
     = Inr (case t of
              Inr False \<Rightarrow>
                (case u of
                   Inr s \<Rightarrow> (case py_float (py_strip s) of Inr (Fin q) \<Rightarrow> int_trunc q | _ \<Rightarrow> 0)
                 | Inl _ \<Rightarrow> 0)
            | _ \<Rightarrow> 0)"
  by (simp add: to_int_def to_int_body_def try_except_def py_int_def pd_isna_def py_str_def
      split: sum.splits pyfloat.splits bool.splits)

lemma to_float_Object:
  "to_float (Object t u)
     = Inr (case t of
              Inr False \<Rightarrow>
                (case u of
                   Inr s \<Rightarrow> (case py_float (remove_commas (py_strip s)) of
                               Inr x \<Rightarrow> x | Inl _ \<Rightarrow> Fin 0)
                 | Inl _ \<Rightarrow> Fin 0)
            | _ \<Rightarrow> Fin 0)"
  by (auto simp: to_float_def to_float_body_def try_except_def pd_isna_def py_str_def
      split: sum.splits bool.splits)

text \<open>
  C5. The numeric coercions are total and silent. For every cell value, whatever
  \<open>pd.isna\<close> and \<open>str\<close> do on it, \<open>to_int\<close> returns an integer and \<open>to_float\<close> returns a
  float, and neither raises. A null cell gives 0 and 0.0. A cell with the text \<open>s\<close> gives
  the integer part of \<open>float(s.strip())\<close>, and 0 when the text is not a float (a parse
  failure: the empty string, non-numeric text) or the float is an infinity or NaN; its
  price is \<open>float\<close> of the stripped text with the commas removed, and 0.0 when that is
  not a float. Any other object gives the same from its \<open>str\<close> when \<open>pd.isna\<close> says
  \<open>False\<close> of it, and 0 and 0.0 when \<open>pd.isna\<close> or \<open>str\<close> raises on it or
  \<open>pd.isna\<close> says \<open>True\<close>.
\<close>

theorem coercion_total_silent:
  "(\<exists>n. to_int val = Inr n) \<and> (\<exists>x. to_float val = Inr x)
   \<and> to_int (Null s) = Inr 0
   \<and> to_float (Null s) = Inr (Fin 0)
   \<and> to_int (Scalar s)
       = Inr (case py_float (py_strip s) of Inr (Fin q) \<Rightarrow> int_trunc q | _ \<Rightarrow> 0)
   \<and> to_float (Scalar s)
       = Inr (case py_float (remove_commas (py_strip s)) of Inr x \<Rightarrow> x | Inl _ \<Rightarrow> Fin 0)
   \<and> to_int (Object t u)
       = Inr (case t of
                Inr False \<Rightarrow>
                  (case u of
                     Inr s' \<Rightarrow> (case py_float (py_strip s') of
                                  Inr (Fin q) \<Rightarrow> int_trunc q | _ \<Rightarrow> 0)
                   | Inl _ \<Rightarrow> 0)
              | _ \<Rightarrow> 0)
   \<and> to_float (Object t u)
       = Inr (case t of
                Inr False \<Rightarrow>
                  (case u of
                     Inr s' \<Rightarrow> (case py_float (remove_commas (py_strip s')) of
                                  Inr x \<Rightarrow> x | Inl _ \<Rightarrow> Fin 0)
                   | Inl _ \<Rightarrow> Fin 0)
              | _ \<Rightarrow> Fin 0)"
proof -
  have "\<exists>n. to_int val = Inr n" "\<exists>x. to_float val = Inr x"
    by (simp_all add: to_int_def to_float_def try_except_total)
  then show ?thesis
    using to_int_Null [of s] to_float_Null [of s] to_int_Scalar [of s] to_float_Scalar [of s]
      to_int_Object [of t u] to_float_Object [of t u]
    by blast
qed

theorem coercion_total_silent_witness:
  "to_int (Scalar []) = Inr 0 \<and> to_float (Scalar []) = Inr (Fin 0)
   \<and> to_int (Scalar ''abc'') = Inr 0 \<and> to_float (Scalar ''abc'') = Inr (Fin 0)
   \<and> to_int (Null ''nan'') = Inr 0 \<and> to_float (Null ''nan'') = Inr (Fin 0)
   \<and> to_int (Object (Inl (TypeError ''isna'')) (Inr ''7'')) = Inr 0
   \<and> to_float (Object (Inr False) (Inl (OtherException ''str''))) = Inr (Fin 0)
   \<and> to_int (Object (Inr False) (Inr ''7'')) = Inr 7
   \<and> to_float (Scalar ''1,234.5'') = Inr (Fin (2469 / 2))
   \<and> to_float (Scalar [CHR '','', CHR 0x1C, CHR ''5'']) = Inr (Fin 0)
   \<and> to_int (Scalar [CHR 0xA0, CHR ''7'']) = Inr 7"
proof -
  have f1: "py_float (py_strip []) = Inl (ValueError ''could not convert string to float'')"
    "py_float (remove_commas (py_strip [])) = Inl (ValueError ''could not convert string to float'')"
    by (simp_all add: coerce_eval)
  have f2: "py_float (py_strip ''abc'') = Inl (ValueError ''could not convert string to float'')"
    "py_float (remove_commas (py_strip ''abc''))
       = Inl (ValueError ''could not convert string to float'')"
    by (simp_all add: coerce_eval)
  have f3: "py_float (py_strip ''7'') = Inr (Fin 7)"
    by (simp add: coerce_eval)
  have f4: "py_float (remove_commas (py_strip ''1,234.5'')) = Inr (Fin (2469 / 2))"
    by (simp add: coerce_eval)
  have f5: "py_float (remove_commas (py_strip [CHR '','', CHR 0x1C, CHR ''5'']))
              = Inl (ValueError ''could not convert string to float'')"
    by (simp add: coerce_eval)
  have f6: "py_float (py_strip [CHR 0xA0, CHR ''7'']) = Inr (Fin 7)"
    by (simp add: coerce_eval)
  have t: "int_trunc 7 = 7"
    by (simp add: int_trunc_def)
  show ?thesis
    using f1 f2 f3 f4 f5 f6 t
      coercion_total_silent [of "Null ''nan''" "[]" "Inl (TypeError ''isna'')" "Inr ''7''"]
      coercion_total_silent [of "Null ''nan''" "''abc''" "Inr False" "Inl (OtherException ''str'')"]
      coercion_total_silent [of "Null ''nan''" "''nan''" "Inr False" "Inr ''7''"]
      coercion_total_silent [of "Null ''nan''" "''1,234.5''" "Inr False" "Inr ''7''"]
      coercion_total_silent [of "Null ''nan''" "[CHR '','', CHR 0x1C, CHR ''5'']" "Inr False" "Inr ''7''"]
      coercion_total_silent [of "Null ''nan''" "[CHR 0xA0, CHR ''7'']" "Inr False" "Inr ''7''"]
    by simp
qed

text \<open>
  C10, as stated: for every cell whose stripped string form parses as a decimal number,
  \<open>to_int\<close> returns that number truncated toward zero. The text \<open>1e309\<close> is a decimal
  number, but the float nearest to it is infinity, \<open>int\<close> of it raises
  \<open>OverflowError\<close>, and \<open>to_int\<close> returns 0.
\<close>

theorem to_int_truncates_counterexample:
  "decimal_number (py_strip ''1e309'') = Some (10 ^ 309)
   \<and> to_int (Scalar ''1e309'') = Inr 0
   \<and> to_int (Scalar ''1e309'') \<noteq> Inr (int_trunc (10 ^ 309))"
  by (simp add: coerce_eval)

text \<open>
  C10, amended: for every cell that is not null and whose stripped string form parses
  as a decimal number \<open>q\<close>, \<open>to_int\<close> does not treat the text as a parse failure: it
  returns the float nearest to \<open>q\<close> truncated toward zero (\<open>3.9\<close> yields 3 and \<open>-2.5\<close>
  yields -2), and 0 only when that float is an infinity, that is when \<open>q\<close> is beyond the
  range of a float.
\<close>

theorem to_int_truncates:
  assumes "pd_isna val = Inr False" and "py_str val = Inr s"
    and "decimal_number (py_strip s) = Some q"
  shows "to_int val = Inr (case binary64 q of Fin x \<Rightarrow> int_trunc x | _ \<Rightarrow> 0)"
proof -
  have "py_float (py_strip s) = Inr (binary64 q)"
    using assms(3) by (intro py_float_decimal) (simp add: float_strip_py_strip)
  then show ?thesis
    using assms(1,2)
    by (cases "binary64 q") (simp_all add: to_int_def to_int_body_def try_except_def py_int_def)
qed

theorem to_int_truncates_witness:
  "pd_isna (Scalar ''3.9'') = Inr False \<and> py_str (Scalar ''3.9'') = Inr ''3.9''
   \<and> decimal_number (py_strip ''3.9'') = Some (39 / 10)
   \<and> to_int (Scalar ''3.9'') = Inr 3
   \<and> decimal_number (py_strip ''-2.5'') = Some (- (5 / 2))
   \<and> to_int (Scalar ''-2.5'') = Inr (- 2)
   \<and> decimal_number (py_strip [CHR 0xA0, CHR ''7'']) = Some 7
   \<and> to_int (Scalar [CHR 0xA0, CHR ''7'']) = Inr 7"
proof -
  have a: "pd_isna (Scalar t) = Inr False" "py_str (Scalar t) = Inr t" for t
    by (simp_all add: pd_isna_def py_str_def)
  have d1: "decimal_number (py_strip ''3.9'') = Some (39 / 10)"
    by (simp add: float_eval)
  have d2: "decimal_number (py_strip ''-2.5'') = Some (- (5 / 2))"
    by (simp add: float_eval)
  have d3: "decimal_number (py_strip [CHR 0xA0, CHR ''7'']) = Some 7"
    by (simp add: float_eval)
  have r1: "binary64 (39 / 10) = Fin (8782019273372467 / 2251799813685248)"
    by (simp add: float_eval)
  have r2: "binary64 (- (5 / 2)) = Fin (- (5 / 2))"
    by (simp add: float_eval)
  have r3: "binary64 7 = Fin 7"
    by (simp add: float_eval)
  have "to_int (Scalar ''3.9'') = Inr 3"
    using to_int_truncates [OF a d1] by (simp add: r1 int_trunc_def floor_numeral_div)
  moreover have "to_int (Scalar ''-2.5'') = Inr (- 2)"
    using to_int_truncates [OF a d2] by (simp add: r2 int_trunc_def floor_numeral_div)
  moreover have "to_int (Scalar [CHR 0xA0, CHR ''7'']) = Inr 7"
    using to_int_truncates [OF a d3] by (simp add: r3 int_trunc_def)
  ultimately show ?thesis
    using a d1 d2 d3 by simp
qed

subsection \<open>Column Resolver\<close>

lemma space_not_lower_alnum: "is_space c \<Longrightarrow> \<not> is_lower_alnum c"
  by (auto simp: is_space_def is_lower_alnum_def ascii_lowercase_def ascii_digits_def)

lemma space_not_upper: "is_space c \<Longrightarrow> c \<notin> set uppercase"
  by (auto simp: is_space_def uppercase_def ascii_uppercase_def latin1_uppercase_def)

lemma filter_dropWhile_disjoint:
  assumes "\<And>c. S c \<Longrightarrow> \<not> P c"
  shows "filter P (dropWhile S xs) = filter P xs"
  using assms by (induction xs) auto

lemma filter_py_strip:
  assumes "\<And>c. is_space c \<Longrightarrow> \<not> P c"
  shows "filter P (py_strip s) = filter P s"
proof -
  have "filter P (py_strip s) = rev (filter P (dropWhile is_space (rev (dropWhile is_space s))))"
    by (simp add: py_strip_def rev_filter)
  also have "\<dots> = rev (filter P (rev (dropWhile is_space s)))"
    using assms by (simp add: filter_dropWhile_disjoint)
  also have "\<dots> = filter P (dropWhile is_space s)"
    by (simp add: rev_filter)
  also have "\<dots> = filter P s"
    using assms by (simp add: filter_dropWhile_disjoint)
  finally show ?thesis .
qed

lemma norm_eq: "norm s = filter is_lower_alnum (py_lower s)"
proof -
  have "norm s = map lower_char (filter (is_lower_alnum \<circ> lower_char) (py_strip s))"
    by (simp add: norm_def py_lower_def filter_map)
  also have "filter (is_lower_alnum \<circ> lower_char) (py_strip s)
               = filter (is_lower_alnum \<circ> lower_char) s"
  proof (rule filter_py_strip)
    fix c assume sp: "is_space c"
    then have "lower_char c = c" by (intro lower_char_id space_not_upper)
    with sp show "\<not> (is_lower_alnum \<circ> lower_char) c"
      by (simp add: space_not_lower_alnum)
  qed
  finally show ?thesis by (simp add: py_lower_def filter_map)
qed

lemma spec_norm_eq: "spec_norm s = filter is_lower_alnum (py_lower s)"
  by (simp add: spec_norm_def filter_py_strip space_not_lower_alnum)

lemma norm_spec_norm: "norm s = spec_norm s"
  by (simp add: norm_eq spec_norm_eq)

lemma fold_norm_upd:
  "fold (\<lambda>c m. m(norm c \<mapsto> c)) cols m n = Some h
     \<Longrightarrow> (h \<in> set cols \<and> norm h = n) \<or> m n = Some h"
  by (induction cols arbitrary: m) (fastforce split: if_splits)+

lemma fold_norm_upd_None:
  "fold (\<lambda>c m. m(norm c \<mapsto> c)) cols m n = None \<longleftrightarrow> n \<notin> norm ` set cols \<and> m n = None"
  by (induction cols arbitrary: m) auto

lemma norm_to_actual_None: "norm_to_actual cols n = None \<longleftrightarrow> n \<notin> norm ` set cols"
  by (simp add: norm_to_actual_def fold_norm_upd_None)

lemma norm_to_actual_Some:
  "norm_to_actual cols n = Some h \<Longrightarrow> h \<in> set cols \<and> norm h = n"
  using fold_norm_upd [of cols Map.empty n h] by (auto simp: norm_to_actual_def)

lemma first_option_None:
  "first_option nta options = None \<longleftrightarrow> (\<forall>opt \<in> set options. nta (norm opt) = None)"
  by (induction options) (auto split: option.splits)

lemma first_option_Some:
  "first_option nta options = Some a \<Longrightarrow> \<exists>opt \<in> set options. nta (norm opt) = Some a"
  by (induction options) (auto split: option.splits)

lemma fold_resolve:
  assumes "distinct (map fst cands)"
  shows "fold (\<lambda>(key, options) colmap.
                 case first_option nta options of
                   Some actual \<Rightarrow> colmap(key \<mapsto> actual)
                 | None \<Rightarrow> colmap) cands m key
         = (case map_of cands key of
              None \<Rightarrow> m key
            | Some options \<Rightarrow>
                (case first_option nta options of Some a \<Rightarrow> Some a | None \<Rightarrow> m key))"
  using assms
proof (induction cands arbitrary: m)
  case Nil
  then show ?case by simp
next
  case (Cons kv cands)
  obtain k opts where kv: "kv = (k, opts)" by (cases kv)
  from Cons.prems kv have d: "distinct (map fst cands)" and k: "k \<notin> fst ` set cands"
    by auto
  from k have nk: "map_of cands k = None"
    by (simp add: map_of_eq_None_iff)
  show ?case
    using Cons.IH [OF d] nk
    by (auto simp: kv split: option.splits)
qed

lemma resolve_columns_key:
  "resolve_columns nta CANDIDATES key
     = (case map_of CANDIDATES key of
          None \<Rightarrow> None
        | Some options \<Rightarrow> first_option nta options)"
proof -
  have "distinct (map fst CANDIDATES)"
    by (simp add: CANDIDATES_def)
  from fold_resolve [OF this, of nta Map.empty key] show ?thesis
    by (simp add: resolve_columns_def split: option.splits)
qed

lemma CANDIDATES_mandatory:
  "map_of CANDIDATES ''model'' = Some (candidates_of ''model'')"
  "map_of CANDIDATES ''material_description'' = Some (candidates_of ''material_description'')"
  by (simp_all add: candidates_of_def CANDIDATES_def)

lemma resolve_columns_mandatory:
  "resolve_columns nta CANDIDATES ''model'' = first_option nta (candidates_of ''model'')"
  "resolve_columns nta CANDIDATES ''material_description''
     = first_option nta (candidates_of ''material_description'')"
  by (simp_all only: resolve_columns_key CANDIDATES_mandatory option.case)

lemma resolved_iff:
  "first_option (norm_to_actual cols) options \<noteq> None
     \<longleftrightarrow> (\<exists>h \<in> set cols. \<exists>a \<in> set options. norm h = norm a)"
proof -
  have "first_option (norm_to_actual cols) options \<noteq> None
          \<longleftrightarrow> (\<exists>a \<in> set options. norm a \<in> norm ` set cols)"
    by (simp add: first_option_None norm_to_actual_None)
  also have "\<dots> \<longleftrightarrow> (\<exists>h \<in> set cols. \<exists>a \<in> set options. norm h = norm a)"
    by (auto simp: image_iff) metis+
  finally show ?thesis .
qed

lemma resolved_header:
  assumes "first_option (norm_to_actual cols) options = Some h"
  shows "h \<in> set cols \<and> (\<exists>a \<in> set options. norm h = norm a)"
  using first_option_Some [OF assms] norm_to_actual_Some by blast

lemma sublist_mid:
  assumes "sublist xs ys"
  shows "sublist xs (ps @ ys @ ss)"
proof -
  from assms obtain p s where "ys = p @ xs @ s"
    by (auto simp: sublist_def)
  then have "ps @ ys @ ss = (ps @ p) @ xs @ (s @ ss)" by simp
  then show ?thesis
    unfolding sublist_def by blast
qed

lemma sublist_join:
  "x \<in> set xs \<Longrightarrow> sublist x (join sep xs)"
proof (induction sep xs rule: join.induct)
  case (1 sep)
  then show ?case by simp
next
  case (2 sep y)
  then show ?case by simp
next
  case (3 sep y z zs)
  show ?case
  proof (cases "x = y")
    case True
    then show ?thesis by simp
  next
    case False
    with 3 have "sublist x (join sep (z # zs))" by simp
    from sublist_mid [OF this, of "y @ sep" "[]"] show ?thesis by simp
  qed
qed

lemma sublist_py_repr_list:
  assumes "a \<in> set xs"
  shows "sublist a (py_repr_list xs)"
proof -
  have "sublist a (py_repr_str a)"
    unfolding py_repr_str_def by (rule sublist_appendI)
  moreover have "sublist (py_repr_str a) (join '', '' (map py_repr_str xs))"
    using assms by (intro sublist_join) simp
  ultimately have "sublist a (join '', '' (map py_repr_str xs))"
    by (rule sublist_order.order_trans)
  then show ?thesis
    unfolding py_repr_list_def by (rule sublist_mid)
qed

lemma message_names_aliases:
  assumes "a \<in> set (candidates_of ''model'') \<or> a \<in> set (candidates_of ''material_description'')"
  shows "sublist a schema_error_message"
  using assms
proof
  assume "a \<in> set (candidates_of ''model'')"
  then have r: "sublist a (py_repr_list (candidates_of ''model''))"
    by (rule sublist_py_repr_list)
  have m: "schema_error_message
      = (''Your sheet must have columns for Model and Description (with any of these headers):''
           @ [CHR 0x0A, CHR 0x0A] @ ''Model: '')
        @ py_repr_list (candidates_of ''model'')
        @ ([CHR 0x0A] @ ''Description: '' @ py_repr_list (candidates_of ''material_description''))"
    by (simp add: schema_error_message_def)
  show ?thesis
    unfolding m using r by (rule sublist_mid)
next
  assume "a \<in> set (candidates_of ''material_description'')"
  then have r: "sublist a (py_repr_list (candidates_of ''material_description''))"
    by (rule sublist_py_repr_list)
  have m: "schema_error_message
      = (''Your sheet must have columns for Model and Description (with any of these headers):''
           @ [CHR 0x0A, CHR 0x0A] @ ''Model: '' @ py_repr_list (candidates_of ''model'')
           @ [CHR 0x0A] @ ''Description: '')
        @ py_repr_list (candidates_of ''material_description'') @ []"
    by (simp add: schema_error_message_def)
  show ?thesis
    unfolding m using r by (rule sublist_mid)
qed

text \<open>
  C4. For every list of header strings: if some header has the normal form (lower-case,
  strip, delete every character that is not a lowercase letter or a digit) of an
  accepted alias of \<open>model\<close>, and some header that of an alias of
  \<open>material_description\<close>, then \<open>build_column_map\<close> returns a map that holds both
  fields, each mapped to a header of the sheet with the normal form of one of its
  aliases; if either field has no such header it raises the error (a \<open>ValueError\<close> in
  the code) whose message names every accepted alias of both fields.
\<close>

theorem build_column_map_mandatory:
  "((\<exists>h \<in> set cols. \<exists>a \<in> set (candidates_of ''model''). spec_norm h = spec_norm a)
      \<and> (\<exists>h \<in> set cols. \<exists>a \<in> set (candidates_of ''material_description'').
             spec_norm h = spec_norm a)
     \<longrightarrow> (\<exists>colmap hm hd. build_column_map cols = Inr colmap
            \<and> colmap ''model'' = Some hm \<and> hm \<in> set cols
            \<and> (\<exists>a \<in> set (candidates_of ''model''). spec_norm hm = spec_norm a)
            \<and> colmap ''material_description'' = Some hd \<and> hd \<in> set cols
            \<and> (\<exists>a \<in> set (candidates_of ''material_description''). spec_norm hd = spec_norm a)))
   \<and> (\<not> (\<exists>h \<in> set cols. \<exists>a \<in> set (candidates_of ''model''). spec_norm h = spec_norm a)
      \<or> \<not> (\<exists>h \<in> set cols. \<exists>a \<in> set (candidates_of ''material_description'').
               spec_norm h = spec_norm a)
     \<longrightarrow> build_column_map cols = Inl (ValueError schema_error_message))
   \<and> (\<forall>a \<in> set (candidates_of ''model'') \<union> set (candidates_of ''material_description'').
        sublist a schema_error_message)"
proof -
  let ?nta = "norm_to_actual cols"
  let ?cm = "resolve_columns ?nta CANDIDATES"
  let ?M = "\<exists>h \<in> set cols. \<exists>a \<in> set (candidates_of ''model''). spec_norm h = spec_norm a"
  let ?D = "\<exists>h \<in> set cols. \<exists>a \<in> set (candidates_of ''material_description'').
              spec_norm h = spec_norm a"
  have M: "?cm ''model'' \<noteq> None \<longleftrightarrow> ?M"
    by (simp only: resolve_columns_mandatory resolved_iff norm_spec_norm)
  have D: "?cm ''material_description'' \<noteq> None \<longleftrightarrow> ?D"
    by (simp only: resolve_columns_mandatory resolved_iff norm_spec_norm)
  have ok: "\<exists>colmap hm hd. build_column_map cols = Inr colmap
            \<and> colmap ''model'' = Some hm \<and> hm \<in> set cols
            \<and> (\<exists>a \<in> set (candidates_of ''model''). spec_norm hm = spec_norm a)
            \<and> colmap ''material_description'' = Some hd \<and> hd \<in> set cols
            \<and> (\<exists>a \<in> set (candidates_of ''material_description''). spec_norm hd = spec_norm a)"
    if "?M" "?D"
  proof -
    from that M D obtain hm hd where hm: "?cm ''model'' = Some hm"
      and hd: "?cm ''material_description'' = Some hd"
      by auto
    from hm have "first_option ?nta (candidates_of ''model'') = Some hm"
      by (simp only: resolve_columns_mandatory)
    from resolved_header [OF this]
    have 1: "hm \<in> set cols" "\<exists>a \<in> set (candidates_of ''model''). spec_norm hm = spec_norm a"
      by (simp_all add: norm_spec_norm)
    from hd have "first_option ?nta (candidates_of ''material_description'') = Some hd"
      by (simp only: resolve_columns_mandatory)
    from resolved_header [OF this]
    have 2: "hd \<in> set cols"
      "\<exists>a \<in> set (candidates_of ''material_description''). spec_norm hd = spec_norm a"
      by (simp_all add: norm_spec_norm)
    have "build_column_map cols = Inr ?cm"
      using hm hd by (simp add: build_column_map_def)
    with hm hd 1 2 show ?thesis by blast
  qed
  have bad: "build_column_map cols = Inl (ValueError schema_error_message)" if "\<not> ?M \<or> \<not> ?D"
  proof -
    from that M D have "?cm ''model'' = None \<or> ?cm ''material_description'' = None"
      by blast
    then show ?thesis
      by (auto simp: build_column_map_def)
  qed
  from ok bad message_names_aliases show ?thesis
    by blast
qed

lemmas norm_eval = str_eval norm_def spec_norm_def is_lower_alnum_def

theorem build_column_map_mandatory_witness:
  "spec_norm ''Part No.'' = spec_norm ''partno''
   \<and> spec_norm '' DESCRIPTION '' = spec_norm ''description''
   \<and> (\<exists>colmap. build_column_map [''Part No.'', ''Price'', '' DESCRIPTION ''] = Inr colmap
         \<and> colmap ''model'' = Some ''Part No.''
         \<and> colmap ''material_description'' = Some '' DESCRIPTION '')
   \<and> build_column_map [''Model'', ''Qty''] = Inl (ValueError schema_error_message)
   \<and> sublist ''itemcode'' schema_error_message
   \<and> sublist ''materialdesc'' schema_error_message"
proof -
  let ?cols = "[''Part No.'', ''Price'', '' DESCRIPTION '']"
  have n1: "spec_norm ''Part No.'' = spec_norm ''partno''"
    and n2: "spec_norm '' DESCRIPTION '' = spec_norm ''description''"
    by (simp_all add: norm_eval)
  have a1: "''partno'' \<in> set (candidates_of ''model'')"
    and a2: "''description'' \<in> set (candidates_of ''material_description'')"
    and a3: "''itemcode'' \<in> set (candidates_of ''model'')"
    and a4: "''materialdesc'' \<in> set (candidates_of ''material_description'')"
    by (simp_all add: candidates_of_def CANDIDATES_def)
  have h1: "\<exists>h \<in> set ?cols. \<exists>a \<in> set (candidates_of ''model''). spec_norm h = spec_norm a"
    using n1 a1 by (intro bexI [of _ "''Part No.''"] bexI [of _ "''partno''"]) simp_all
  have h2: "\<exists>h \<in> set ?cols. \<exists>a \<in> set (candidates_of ''material_description'').
              spec_norm h = spec_norm a"
    using n2 a2 by (intro bexI [of _ "'' DESCRIPTION ''"] bexI [of _ "''description''"]) simp_all
  from build_column_map_mandatory [of ?cols] h1 h2
  obtain colmap where ok: "build_column_map ?cols = Inr colmap" by blast
  have nn: "norm ''Part No.'' = ''partno''" "norm ''Price'' = ''price''"
    "norm '' DESCRIPTION '' = ''description''" "norm ''model'' = ''model''"
    "norm ''partno'' = ''partno''" "norm ''materialdescription'' = ''materialdescription''"
    "norm ''description'' = ''description''"
    by (simp_all add: norm_eval)
  have m: "resolve_columns (norm_to_actual ?cols) CANDIDATES ''model'' = Some ''Part No.''"
    unfolding resolve_columns_mandatory
    by (simp add: norm_to_actual_def candidates_of_def CANDIDATES_def nn)
  have d: "resolve_columns (norm_to_actual ?cols) CANDIDATES ''material_description''
             = Some '' DESCRIPTION ''"
    unfolding resolve_columns_mandatory
    by (simp add: norm_to_actual_def candidates_of_def CANDIDATES_def nn)
  from ok m d have 1: "\<exists>colmap. build_column_map ?cols = Inr colmap
         \<and> colmap ''model'' = Some ''Part No.''
         \<and> colmap ''material_description'' = Some '' DESCRIPTION ''"
    unfolding build_column_map_def Let_def by (simp split: if_splits)
  have "\<not> (\<exists>h \<in> set [''Model'', ''Qty'']. \<exists>a \<in> set (candidates_of ''material_description'').
              spec_norm h = spec_norm a)"
    by (simp add: norm_eval candidates_of_def CANDIDATES_def)
  with build_column_map_mandatory [of "[''Model'', ''Qty'']"]
  have 2: "build_column_map [''Model'', ''Qty''] = Inl (ValueError schema_error_message)"
    by blast
  from build_column_map_mandatory [of "[]"] a3 a4
  have 3: "sublist ''itemcode'' schema_error_message"
    "sublist ''materialdesc'' schema_error_message"
    by blast+
  from n1 n2 1 2 3 show ?thesis by blast
qed


subsection \<open>Row Normalizer\<close>

lemma and_then_Inr: "and_then m f = Inr y \<longleftrightarrow> (\<exists>x. m = Inr x \<and> f x = Inr y)"
  by (cases m) (simp_all add: and_then_def)

lemma mapE_Inr:
  "mapE f xs = Inr ys \<Longrightarrow> length ys = length xs \<and> (\<forall>i < length xs. f (xs ! i) = Inr (ys ! i))"
proof (induction xs arbitrary: ys)
  case Nil
  then show ?case by simp
next
  case (Cons x xs)
  from Cons.prems obtain y zs where y: "f x = Inr y" and zs: "mapE f xs = Inr zs"
    and ys: "ys = y # zs"
    by (auto split: sum.splits)
  from Cons.IH [OF zs] y ys show ?case
    by (auto simp: nth_Cons split: nat.splits)
qed

lemma col_series_Inr:
  assumes "col_series df colmap key dflt = Inr cs"
  shows "length cs = length (rows df)
         \<and> (\<forall>i < length (rows df).
               cs ! i = (case cell_of (rows df ! i) colmap key of Some c \<Rightarrow> c | None \<Rightarrow> dflt))"
  using assms
  by (auto simp: col_series_def getitem_def cell_of_def split: option.splits if_splits)

lemma data_frame_nth:
  assumes "length ms = n" "length ds = n" "length ss = n" "length hs = n"
    "length sts = n" "length us = n" "length ps = n" "i < n"
  shows "data_frame ms ds ss hs sts us ps ! i
         = \<lparr>model = ms ! i, material_description = ds ! i, shrm = ss ! i, home = hs ! i,
            stock = sts ! i, used_spares = us ! i, price = ps ! i\<rparr>"
  using assms by (simp add: data_frame_def)

lemma data_frame_length:
  assumes "length ms = n" "length ds = n" "length ss = n" "length hs = n"
    "length sts = n" "length us = n" "length ps = n"
  shows "length (data_frame ms ds ss hs sts us ps) = n"
  using assms by (simp add: data_frame_def)

lemma numeric_series_Inr:
  assumes "(if colmap key \<noteq> None
            then and_then (col_series df colmap key (Scalar ''0'')) (mapE to_int)
            else Inr (replicate (length (rows df)) 0)) = Inr xs"
  shows "length xs = length (rows df)
         \<and> (\<forall>i < length (rows df).
               (case cell_of (rows df ! i) colmap key of
                  Some c \<Rightarrow> to_int c = Inr (xs ! i)
                | None \<Rightarrow> xs ! i = 0))"
proof (cases "colmap key")
  case None
  with assms show ?thesis by (auto simp: cell_of_def)
next
  case (Some c)
  with assms obtain cs where cs: "col_series df colmap key (Scalar ''0'') = Inr cs"
    and xs: "mapE to_int cs = Inr xs"
    by (auto simp: and_then_Inr)
  from col_series_Inr [OF cs] mapE_Inr [OF xs] Some show ?thesis
    by (auto simp: cell_of_def)
qed

lemma price_series_Inr:
  assumes "and_then (col_series df colmap key (Scalar ''0'')) (mapE to_float) = Inr xs"
  shows "length xs = length (rows df)
         \<and> (\<forall>i < length (rows df).
               (case cell_of (rows df ! i) colmap key of
                  Some c \<Rightarrow> to_float c = Inr (xs ! i)
                | None \<Rightarrow> to_float (Scalar ''0'') = Inr (xs ! i)))"
proof -
  from assms obtain cs where cs: "col_series df colmap key (Scalar ''0'') = Inr cs"
    and xs: "mapE to_float cs = Inr xs"
    by (auto simp: and_then_Inr)
  from col_series_Inr [OF cs] mapE_Inr [OF xs] show ?thesis
    by (auto split: option.splits)
qed

lemma to_float_zero: "to_float (Scalar ''0'') = Inr (Fin 0)"
  by (simp add: coerce_eval)

lemma build_app_df_numeric:
  assumes "build_app_df df colmap = Inr recs"
  shows "length recs = length (rows df)
         \<and> (\<forall>i < length (rows df).
               (case cell_of (rows df ! i) colmap ''stock'' of
                  Some c \<Rightarrow> to_int c = Inr (stock (recs ! i))
                | None \<Rightarrow> stock (recs ! i) = 0)
               \<and> (case cell_of (rows df ! i) colmap ''used_spares'' of
                  Some c \<Rightarrow> to_int c = Inr (used_spares (recs ! i))
                | None \<Rightarrow> used_spares (recs ! i) = 0)
               \<and> (case cell_of (rows df ! i) colmap ''price'' of
                  Some c \<Rightarrow> to_float c = Inr (price (recs ! i))
                | None \<Rightarrow> price (recs ! i) = Fin 0))"
proof -
  let ?n = "length (rows df)"
  from assms obtain mc dc sc hc stc uc pc ms ds ss hs where
    mc: "col_series df colmap ''model'' (Scalar []) = Inr mc"
    and dc: "col_series df colmap ''material_description'' (Scalar []) = Inr dc"
    and sc: "col_series df colmap ''shrm'' (Scalar []) = Inr sc"
    and hc: "col_series df colmap ''home'' (Scalar []) = Inr hc"
    and stc: "(if colmap ''stock'' \<noteq> None
               then and_then (col_series df colmap ''stock'' (Scalar ''0'')) (mapE to_int)
               else Inr (replicate (length (rows df)) 0)) = Inr stc"
    and uc: "(if colmap ''used_spares'' \<noteq> None
               then and_then (col_series df colmap ''used_spares'' (Scalar ''0'')) (mapE to_int)
               else Inr (replicate (length (rows df)) 0)) = Inr uc"
    and pc: "and_then (col_series df colmap ''price'' (Scalar ''0'')) (mapE to_float) = Inr pc"
    and ms: "astype_str mc = Inr ms"
    and ds: "astype_str dc = Inr ds"
    and ss: "astype_str (fillna ''N-A'' sc) = Inr ss"
    and hs: "astype_str (fillna ''N-A'' hc) = Inr hs"
    and recs: "recs = data_frame ms ds (replace_str ''nan'' ''N-A'' ss)
                        (replace_str ''nan'' ''N-A'' hs) stc uc pc"
    unfolding build_app_df_def and_then_Inr by blast
  have len: "length ms = ?n" "length ds = ?n" "length (replace_str ''nan'' ''N-A'' ss) = ?n"
    "length (replace_str ''nan'' ''N-A'' hs) = ?n"
    using col_series_Inr [OF mc] col_series_Inr [OF dc] col_series_Inr [OF sc]
      col_series_Inr [OF hc] mapE_Inr [OF ms [unfolded astype_str_def]]
      mapE_Inr [OF ds [unfolded astype_str_def]] mapE_Inr [OF ss [unfolded astype_str_def]]
      mapE_Inr [OF hs [unfolded astype_str_def]]
    by (simp_all add: replace_str_def fillna_def)
  note st = numeric_series_Inr [OF stc]
  note us = numeric_series_Inr [OF uc]
  note ps = price_series_Inr [OF pc]
  have nth: "recs ! i = \<lparr>model = ms ! i, material_description = ds ! i,
               shrm = replace_str ''nan'' ''N-A'' ss ! i, home = replace_str ''nan'' ''N-A'' hs ! i,
               stock = stc ! i, used_spares = uc ! i, price = pc ! i\<rparr>" if "i < ?n" for i
    unfolding recs using len st us ps that by (intro data_frame_nth [where n = ?n]) simp_all
  have "length recs = ?n"
    unfolding recs using len st us ps by (intro data_frame_length) simp_all
  moreover have "(case cell_of (rows df ! i) colmap ''stock'' of
                  Some c \<Rightarrow> to_int c = Inr (stock (recs ! i))
                | None \<Rightarrow> stock (recs ! i) = 0)
               \<and> (case cell_of (rows df ! i) colmap ''used_spares'' of
                  Some c \<Rightarrow> to_int c = Inr (used_spares (recs ! i))
                | None \<Rightarrow> used_spares (recs ! i) = 0)
               \<and> (case cell_of (rows df ! i) colmap ''price'' of
                  Some c \<Rightarrow> to_float c = Inr (price (recs ! i))
                | None \<Rightarrow> price (recs ! i) = Fin 0)" if "i < ?n" for i
    using st us ps that nth [OF that] to_float_zero
    by (auto split: option.splits)
  ultimately show ?thesis by blast
qed

lemma and_then_simps:
  "and_then (Inr x) f = f x"
  "and_then (Inl e) f = Inl e"
  by (simp_all add: and_then_def)

lemma digit_val_nonneg: "0 \<le> digit_val c"
  by (simp add: digit_val_def ascii_digits_def)

lemma foldl_digits_nonneg: "0 \<le> n \<Longrightarrow> 0 \<le> foldl (\<lambda>n c. 10 * n + digit_val c) n ds"
  by (induction ds arbitrary: n) (simp_all add: digit_val_nonneg)

lemma int_of_digits_nonneg: "0 \<le> int_of_digits ds"
  by (simp add: int_of_digits_def foldl_digits_nonneg)

lemma parse_floatnumber_nonneg:
  assumes "parse_floatnumber s = Some q"
  shows "0 \<le> q"
proof -
  from assms obtain ds e k where "q = of_int (int_of_digits ds) * power_int 10 (e - int k)"
    by (auto simp: parse_floatnumber_def split: prod.splits option.splits if_splits)
  moreover have "(0::rat) \<le> power_int 10 (e - int k)"
    by (rule zero_le_power_int) simp
  ultimately show ?thesis
    by (simp add: int_of_digits_nonneg)
qed

lemma round_half_even_nonneg: "0 \<le> x \<Longrightarrow> 0 \<le> round_half_even x"
  by (simp add: round_half_even_def Let_def)

lemma binary64_nonneg:
  assumes "0 \<le> q"
  shows "binary64 q = PInf \<or> (\<exists>x. binary64 q = Fin x \<and> 0 \<le> x)"
proof (cases "q = 0")
  case True
  then show ?thesis by (simp add: binary64_def)
next
  case False
  with assms have pos: "0 < q" by simp
  let ?u = "power_int 2 (max (ilog2 \<bar>q\<bar>) (- 1022) - 52) :: rat"
  have u: "0 < ?u" by (rule zero_less_power_int) simp
  with pos have "0 \<le> \<bar>q\<bar> / ?u" by simp
  then have "0 \<le> round_half_even (\<bar>q\<bar> / ?u)" by (rule round_half_even_nonneg)
  with u have "0 \<le> of_int (round_half_even (\<bar>q\<bar> / ?u)) * ?u" by simp
  with pos show ?thesis
    by (simp add: binary64_def Let_def)
qed

lemma set_strip: "set (rev (dropWhile P (rev (dropWhile P s)))) \<subseteq> set s"
proof -
  have "set (rev (dropWhile P (rev (dropWhile P s)))) \<subseteq> set (dropWhile P s)"
    using set_dropWhileD [of _ P "rev (dropWhile P s)"] by auto
  also have "\<dots> \<subseteq> set s"
    using set_dropWhileD [of _ P s] by auto
  finally show ?thesis .
qed

lemma set_py_strip: "set (py_strip s) \<subseteq> set s"
  unfolding py_strip_def by (rule set_strip)

lemma set_float_strip: "set (float_strip s) \<subseteq> set s"
  unfolding float_strip_def by (rule set_strip)

lemma py_float_no_minus:
  assumes "CHR ''-'' \<notin> set s" and "py_float s = Inr x"
  shows "x = NaN \<or> float_ge0 x"
proof -
  from assms(1) set_float_strip have nm: "CHR ''-'' \<notin> set (float_strip s)" by blast
  obtain neg body where sp: "split_sign (float_strip s) = (neg, body)"
    by (cases "split_sign (float_strip s)")
  from sp nm have neg: "\<not> neg"
    by (auto simp: split_sign_def split: list.splits if_splits)
  show ?thesis
  proof (cases "py_lower body = ''inf'' \<or> py_lower body = ''infinity'' \<or> py_lower body = ''nan''")
    case True
    with assms(2) sp neg show ?thesis
      by (auto simp: py_float_def float_ge0_def split: if_splits)
  next
    case False
    with assms(2) sp obtain q where q: "decimal_number (float_strip s) = Some q"
      and x: "x = binary64 q"
      by (auto simp: py_float_def split: option.splits)
    from q sp neg obtain r where "parse_floatnumber body = Some r" "q = r"
      by (auto simp: decimal_number_def split: option.splits)
    then have "0 \<le> q" using parse_floatnumber_nonneg by blast
    from binary64_nonneg [OF this] x show ?thesis
      by (auto simp: float_ge0_def)
  qed
qed

lemma int_trunc_nonneg: "0 \<le> q \<Longrightarrow> 0 \<le> int_trunc q"
  by (simp add: int_trunc_def)

lemma py_int_nonneg:
  assumes "x = NaN \<or> float_ge0 x" and "py_int x = Inr n"
  shows "0 \<le> n"
  using assms by (cases x) (auto simp: py_int_def float_ge0_def int_trunc_nonneg)

lemma to_int_no_minus:
  assumes "\<And>s. py_str c = Inr s \<Longrightarrow> CHR ''-'' \<notin> set s" and "to_int c = Inr n"
  shows "0 \<le> n"
proof (cases "to_int_body c")
  case (Inl e)
  with assms(2) show ?thesis by (simp add: to_int_def try_except_def)
next
  case (Inr m)
  with assms(2) have nm: "n = m" by (simp add: to_int_def try_except_def)
  show ?thesis
  proof (cases "pd_isna c = Inr False")
    case False
    with Inr nm show ?thesis
      by (auto simp: to_int_body_def split: sum.splits bool.splits)
  next
    case True
    with Inr obtain s x where s: "py_str c = Inr s" and x: "py_float (py_strip s) = Inr x"
      and m: "py_int x = Inr m"
      by (auto simp: to_int_body_def split: sum.splits)
    from assms(1) [OF s] set_py_strip have "CHR ''-'' \<notin> set (py_strip s)" by blast
    from py_int_nonneg [OF py_float_no_minus [OF this x] m] nm show ?thesis by simp
  qed
qed

lemma to_float_no_minus:
  assumes "\<And>s. py_str c = Inr s \<Longrightarrow> CHR ''-'' \<notin> set s" and "to_float c = Inr x"
  shows "x = NaN \<or> float_ge0 x"
proof (cases "to_float_body c")
  case (Inl e)
  with assms(2) show ?thesis by (auto simp: to_float_def try_except_def float_ge0_def)
next
  case (Inr y)
  with assms(2) have xy: "x = y" by (simp add: to_float_def try_except_def)
  show ?thesis
  proof (cases "pd_isna c = Inr False")
    case False
    with Inr xy show ?thesis
      by (auto simp: to_float_body_def float_ge0_def split: sum.splits bool.splits)
  next
    case True
    with Inr obtain s where s: "py_str c = Inr s"
      and y: "py_float (remove_commas (py_strip s)) = Inr y"
      by (auto simp: to_float_body_def split: sum.splits)
    from assms(1) [OF s] set_py_strip have "CHR ''-'' \<notin> set (remove_commas (py_strip s))"
      by (auto simp: remove_commas_def)
    from py_float_no_minus [OF this y] xy show ?thesis by simp
  qed
qed

lemma norm_aliases:
  "norm ''model'' = ''model''" "norm ''partno'' = ''partno''"
  "norm ''partnumber'' = ''partnumber''" "norm ''itemcode'' = ''itemcode''"
  "norm ''material'' = ''material''"
  "norm ''materialdescription'' = ''materialdescription''"
  "norm ''description'' = ''description''" "norm ''desc'' = ''desc''"
  "norm ''itemdesc'' = ''itemdesc''" "norm ''materialdesc'' = ''materialdesc''"
  "norm ''shrm'' = ''shrm''" "norm ''showroom'' = ''showroom''"
  "norm ''home'' = ''home''" "norm ''godown'' = ''godown''" "norm ''warehouse'' = ''warehouse''"
  "norm ''stock'' = ''stock''" "norm ''qty'' = ''qty''" "norm ''quantity'' = ''quantity''"
  "norm ''onhand'' = ''onhand''"
  "norm ''usedspares'' = ''usedspares''" "norm ''used spares'' = ''usedspares''"
  "norm ''used'' = ''used''"
  "norm ''price'' = ''price''" "norm ''unitprice'' = ''unitprice''" "norm ''cost'' = ''cost''"
  "norm ''salesprice'' = ''salesprice''"
  by (simp_all add: norm_eval)

lemma norm_headers:
  "norm ''Model'' = ''model''" "norm ''Description'' = ''description''"
  "norm ''Showroom'' = ''showroom''" "norm ''Stock'' = ''stock''" "norm ''Price'' = ''price''"
  by (simp_all add: norm_eval)

lemma colmap_eval_test:
  "resolve_columns (norm_to_actual [''Model'', ''Description'', ''Showroom'']) CANDIDATES ''shrm''
     = Some ''Showroom''"
  "resolve_columns (norm_to_actual [''Model'', ''Description'', ''Showroom'']) CANDIDATES ''home''
     = None"
  unfolding resolve_columns_key
  by (simp_all add: CANDIDATES_def norm_to_actual_def norm_aliases norm_headers)

lemma build_column_map_resolved:
  assumes "resolve_columns (norm_to_actual cols) CANDIDATES ''model'' = Some a"
    and "resolve_columns (norm_to_actual cols) CANDIDATES ''material_description'' = Some b"
  shows "build_column_map cols = Inr (resolve_columns (norm_to_actual cols) CANDIDATES)"
  using assms by (simp add: build_column_map_def)

lemmas frame_eval = and_then_simps build_app_df_def col_series_def getitem_def fillna_def
  astype_str_def py_str_def replace_str_def data_frame_def to_float_zero

text \<open>
  C6 on a sheet with the columns Model, Description and Showroom and no column for
  \<open>home\<close>, whose one row has an empty Showroom cell (NaN): the missing cell gives
  \<open>shrm = "N-A"\<close>, but \<open>home\<close>, whose column is not resolved, is the empty string.
\<close>

theorem load_frame_missing_home_column:
  "load_frame
     \<lparr>columns = [''Model'', ''Description'', ''Showroom''],
      rows = [[''Model'' \<mapsto> Scalar ''M100'', ''Description'' \<mapsto> Scalar ''Blade'',
               ''Showroom'' \<mapsto> Null ''nan'']]\<rparr>
   = Inr [\<lparr>model = ''M100'', material_description = ''Blade'', shrm = ''N-A'', home = [],
           stock = 0, used_spares = 0, price = Fin 0\<rparr>]"
proof -
  let ?cols = "[''Model'', ''Description'', ''Showroom'']"
  let ?cm = "resolve_columns (norm_to_actual ?cols) CANDIDATES"
  have cm: "?cm ''model'' = Some ''Model''" "?cm ''material_description'' = Some ''Description''"
    "?cm ''shrm'' = Some ''Showroom''" "?cm ''home'' = None" "?cm ''stock'' = None"
    "?cm ''used_spares'' = None" "?cm ''price'' = None"
    unfolding resolve_columns_key
    by (simp_all add: CANDIDATES_def norm_to_actual_def norm_aliases norm_headers)
  have "build_column_map ?cols = Inr ?cm"
    using cm(1,2) by (rule build_column_map_resolved)
  then show ?thesis
    by (simp add: load_frame_def frame_eval cm)
qed

lemma int_trunc_neg: "0 \<le> int_trunc q \<longleftrightarrow> \<not> q \<le> - 1"
proof (cases "0 \<le> q")
  case True
  then show ?thesis by (simp add: int_trunc_def)
next
  case False
  have "\<lfloor>- q\<rfloor> \<le> 0 \<longleftrightarrow> - q < 1"
    by (simp add: floor_le_zero)
  with False show ?thesis
    by (auto simp: int_trunc_def)
qed

lemma to_int_not_text:
  assumes "pd_isna c \<noteq> Inr False \<or> (\<exists>e. py_str c = Inl e)"
  shows "to_int c = Inr 0"
  using assms
  by (auto simp: to_int_def to_int_body_def try_except_def split: sum.splits bool.splits)

lemma to_float_not_text:
  assumes "pd_isna c \<noteq> Inr False \<or> (\<exists>e. py_str c = Inl e)"
  shows "to_float c = Inr (Fin 0)"
  using assms
  by (auto simp: to_float_def to_float_body_def try_except_def split: sum.splits bool.splits)

lemma to_int_nonneg_iff:
  assumes "to_int c = Inr n"
  shows "0 \<le> n \<longleftrightarrow>
         \<not> (\<exists>s q. pd_isna c = Inr False \<and> py_str c = Inr s
                  \<and> py_float (py_strip s) = Inr (Fin q) \<and> q \<le> - 1)"
proof (cases "pd_isna c \<noteq> Inr False \<or> (\<exists>e. py_str c = Inl e)")
  case True
  from to_int_not_text [OF True] assms have "n = 0" by simp
  with True show ?thesis by auto
next
  case False
  then obtain s where na: "pd_isna c = Inr False" and s: "py_str c = Inr s"
    by (cases "py_str c") auto
  from to_int_text [OF na s] assms
  have n: "n = (case py_float (py_strip s) of Inr (Fin q) \<Rightarrow> int_trunc q | _ \<Rightarrow> 0)"
    by simp
  show ?thesis
  proof (cases "\<exists>q. py_float (py_strip s) = Inr (Fin q)")
    case True
    then obtain q where q: "py_float (py_strip s) = Inr (Fin q)" by blast
    with n have "n = int_trunc q" by simp
    with na s q show ?thesis by (simp add: int_trunc_neg)
  next
    case False
    with n have "n = 0"
      by (auto split: sum.splits pyfloat.splits)
    with False s show ?thesis by auto
  qed
qed

lemma to_float_ge0_iff:
  assumes "to_float c = Inr x"
  shows "float_ge0 x \<longleftrightarrow>
         \<not> (\<exists>s y. pd_isna c = Inr False \<and> py_str c = Inr s
                  \<and> py_float (remove_commas (py_strip s)) = Inr y \<and> \<not> float_ge0 y)"
proof (cases "pd_isna c \<noteq> Inr False \<or> (\<exists>e. py_str c = Inl e)")
  case True
  from to_float_not_text [OF True] assms have "x = Fin 0" by simp
  with True show ?thesis by (auto simp: float_ge0_def)
next
  case False
  then obtain s where na: "pd_isna c = Inr False" and s: "py_str c = Inr s"
    by (cases "py_str c") auto
  from to_float_text [OF na s] assms
  have x: "x = (case py_float (remove_commas (py_strip s)) of Inr y \<Rightarrow> y | Inl _ \<Rightarrow> Fin 0)"
    by simp
  show ?thesis
  proof (cases "py_float (remove_commas (py_strip s))")
    case (Inl e)
    with x have "x = Fin 0" by simp
    with Inl s show ?thesis by (simp add: float_ge0_def)
  next
    case (Inr y)
    with x have "x = y" by simp
    with na s Inr show ?thesis by simp
  qed
qed

lemma int_field_nonneg_iff:
  assumes "(case co of Some c \<Rightarrow> to_int c = Inr n | None \<Rightarrow> n = 0)"
  shows "0 \<le> n \<longleftrightarrow>
         \<not> (\<exists>c s q. co = Some c \<and> pd_isna c = Inr False \<and> py_str c = Inr s
                    \<and> py_float (py_strip s) = Inr (Fin q) \<and> q \<le> - 1)"
proof (cases co)
  case None
  with assms show ?thesis by simp
next
  case (Some c)
  with assms have "to_int c = Inr n" by simp
  from to_int_nonneg_iff [OF this] Some show ?thesis by simp
qed

lemma float_field_ge0_iff:
  assumes "(case co of Some c \<Rightarrow> to_float c = Inr x | None \<Rightarrow> x = Fin 0)"
  shows "float_ge0 x \<longleftrightarrow>
         \<not> (\<exists>c s y. co = Some c \<and> pd_isna c = Inr False \<and> py_str c = Inr s
                    \<and> py_float (remove_commas (py_strip s)) = Inr y \<and> \<not> float_ge0 y)"
proof (cases co)
  case None
  with assms show ?thesis by (simp add: float_ge0_def)
next
  case (Some c)
  with assms have "to_float c = Inr x" by simp
  from to_float_ge0_iff [OF this] Some show ?thesis by simp
qed

lemma int_field_no_minus:
  assumes "(case co of Some c \<Rightarrow> to_int c = Inr n | None \<Rightarrow> n = 0)"
    and "\<forall>c s. co = Some c \<longrightarrow> py_str c = Inr s \<longrightarrow> CHR ''-'' \<notin> set s"
  shows "0 \<le> n"
proof (cases co)
  case None
  with assms(1) show ?thesis by simp
next
  case (Some c)
  with assms(1) have "to_int c = Inr n" by simp
  moreover from assms(2) Some have "\<And>s. py_str c = Inr s \<Longrightarrow> CHR ''-'' \<notin> set s" by blast
  ultimately show ?thesis by (intro to_int_no_minus [of c])
qed

lemma float_field_no_minus:
  assumes "(case co of Some c \<Rightarrow> to_float c = Inr x | None \<Rightarrow> x = Fin 0)"
    and "\<forall>c s. co = Some c \<longrightarrow> py_str c = Inr s \<longrightarrow> CHR ''-'' \<notin> set s"
  shows "x = NaN \<or> float_ge0 x"
proof (cases co)
  case None
  with assms(1) show ?thesis by (simp add: float_ge0_def)
next
  case (Some c)
  with assms(1) have "to_float c = Inr x" by simp
  moreover from assms(2) Some have "\<And>s. py_str c = Inr s \<Longrightarrow> CHR ''-'' \<notin> set s" by blast
  ultimately show ?thesis by (intro to_float_no_minus [of c])
qed

text \<open>
  C8, amended: every Stock Record holds in \<open>stock\<close>, \<open>used_spares\<close> and \<open>price\<close> what
  \<open>to_int\<close>, \<open>to_int\<close> and \<open>to_float\<close> make of the row's cell (0, 0 and 0.0 where the
  column is not resolved), without clamping. So \<open>stock >= 0\<close> holds unless the stock
  cell is not null and \<open>float\<close> of its stripped string form is a finite number
  \<open><= -1\<close>, and the same for \<open>used_spares\<close>; \<open>price >= 0.0\<close> holds unless the price
  cell is not null and \<open>float\<close> of its stripped string form without commas is a float
  that is not \<open>>= 0.0\<close> (a negative number, \<open>-inf\<close> or NaN). In particular the three
  fields are not negative (\<open>price\<close> is then \<open>>= 0.0\<close> or NaN) when the string forms of
  the row's stock, used-spares and price cells carry no minus sign.
\<close>

theorem build_app_df_sign:
  assumes "build_app_df df colmap = Inr recs" and "i < length recs"
  shows "(case cell_of (rows df ! i) colmap ''stock'' of
            Some c \<Rightarrow> to_int c = Inr (stock (recs ! i))
          | None \<Rightarrow> stock (recs ! i) = 0)
       \<and> (case cell_of (rows df ! i) colmap ''used_spares'' of
            Some c \<Rightarrow> to_int c = Inr (used_spares (recs ! i))
          | None \<Rightarrow> used_spares (recs ! i) = 0)
       \<and> (case cell_of (rows df ! i) colmap ''price'' of
            Some c \<Rightarrow> to_float c = Inr (price (recs ! i))
          | None \<Rightarrow> price (recs ! i) = Fin 0)
       \<and> (0 \<le> stock (recs ! i) \<longleftrightarrow>
            \<not> (\<exists>c s q. cell_of (rows df ! i) colmap ''stock'' = Some c
                  \<and> pd_isna c = Inr False \<and> py_str c = Inr s
                  \<and> py_float (py_strip s) = Inr (Fin q) \<and> q \<le> - 1))
       \<and> (0 \<le> used_spares (recs ! i) \<longleftrightarrow>
            \<not> (\<exists>c s q. cell_of (rows df ! i) colmap ''used_spares'' = Some c
                  \<and> pd_isna c = Inr False \<and> py_str c = Inr s
                  \<and> py_float (py_strip s) = Inr (Fin q) \<and> q \<le> - 1))
       \<and> (float_ge0 (price (recs ! i)) \<longleftrightarrow>
            \<not> (\<exists>c s y. cell_of (rows df ! i) colmap ''price'' = Some c
                  \<and> pd_isna c = Inr False \<and> py_str c = Inr s
                  \<and> py_float (remove_commas (py_strip s)) = Inr y \<and> \<not> float_ge0 y))
       \<and> ((\<forall>key \<in> {''stock'', ''used_spares'', ''price''}. \<forall>c s.
              cell_of (rows df ! i) colmap key = Some c \<longrightarrow> py_str c = Inr s
              \<longrightarrow> CHR ''-'' \<notin> set s)
            \<longrightarrow> 0 \<le> stock (recs ! i) \<and> 0 \<le> used_spares (recs ! i)
                \<and> (price (recs ! i) = NaN \<or> float_ge0 (price (recs ! i))))"
proof -
  from build_app_df_numeric [OF assms(1)] assms(2)
  have st: "(case cell_of (rows df ! i) colmap ''stock'' of
            Some c \<Rightarrow> to_int c = Inr (stock (recs ! i))
          | None \<Rightarrow> stock (recs ! i) = 0)"
    and us: "(case cell_of (rows df ! i) colmap ''used_spares'' of
            Some c \<Rightarrow> to_int c = Inr (used_spares (recs ! i))
          | None \<Rightarrow> used_spares (recs ! i) = 0)"
    and pr: "(case cell_of (rows df ! i) colmap ''price'' of
            Some c \<Rightarrow> to_float c = Inr (price (recs ! i))
          | None \<Rightarrow> price (recs ! i) = Fin 0)"
    by simp_all
  have "0 \<le> stock (recs ! i) \<and> 0 \<le> used_spares (recs ! i)
          \<and> (price (recs ! i) = NaN \<or> float_ge0 (price (recs ! i)))"
    if nm: "\<forall>key \<in> {''stock'', ''used_spares'', ''price''}. \<forall>c s.
              cell_of (rows df ! i) colmap key = Some c \<longrightarrow> py_str c = Inr s
              \<longrightarrow> CHR ''-'' \<notin> set s"
  proof -
    from nm have
      "\<forall>c s. cell_of (rows df ! i) colmap ''stock'' = Some c \<longrightarrow> py_str c = Inr s
              \<longrightarrow> CHR ''-'' \<notin> set s"
      "\<forall>c s. cell_of (rows df ! i) colmap ''used_spares'' = Some c \<longrightarrow> py_str c = Inr s
              \<longrightarrow> CHR ''-'' \<notin> set s"
      "\<forall>c s. cell_of (rows df ! i) colmap ''price'' = Some c \<longrightarrow> py_str c = Inr s
              \<longrightarrow> CHR ''-'' \<notin> set s"
      by blast+
    with int_field_no_minus [OF st] int_field_no_minus [OF us] float_field_no_minus [OF pr]
    show ?thesis by blast
  qed
  with st us pr int_field_nonneg_iff [OF st] int_field_nonneg_iff [OF us]
    float_field_ge0_iff [OF pr]
  show ?thesis by blast
qed

text \<open>
  C8, as stated: every Stock Record has \<open>stock >= 0\<close>, \<open>used_spares >= 0\<close> and
  \<open>price >= 0.0\<close>, also for rows with negative numbers in their cells. A row with the
  Stock cell \<open>-5\<close> and the Price cell \<open>-1.5\<close> gives \<open>stock = -5\<close> and \<open>price = -1.5\<close>.
\<close>

theorem build_app_df_nonneg_counterexample:
  "(let r = \<lparr>model = ''M100'', material_description = ''Blade'', shrm = [], home = [],
              stock = - 5, used_spares = 0, price = Fin (- (3 / 2))\<rparr>
    in load_frame
         \<lparr>columns = [''Model'', ''Description'', ''Stock'', ''Price''],
          rows = [[''Model'' \<mapsto> Scalar ''M100'', ''Description'' \<mapsto> Scalar ''Blade'',
                   ''Stock'' \<mapsto> Scalar ''-5'', ''Price'' \<mapsto> Scalar ''-1.5'']]\<rparr>
         = Inr [r]
       \<and> \<not> 0 \<le> stock r \<and> \<not> float_ge0 (price r))"
proof -
  let ?cols = "[''Model'', ''Description'', ''Stock'', ''Price'']"
  let ?cm = "resolve_columns (norm_to_actual ?cols) CANDIDATES"
  have cm: "?cm ''model'' = Some ''Model''" "?cm ''material_description'' = Some ''Description''"
    "?cm ''shrm'' = None" "?cm ''home'' = None" "?cm ''stock'' = Some ''Stock''"
    "?cm ''used_spares'' = None" "?cm ''price'' = Some ''Price''"
    unfolding resolve_columns_key
    by (simp_all add: CANDIDATES_def norm_to_actual_def norm_aliases norm_headers)
  have ti: "to_int (Scalar ''-5'') = Inr (- 5)"
    by (simp add: coerce_eval)
  have tf: "to_float (Scalar ''-1.5'') = Inr (Fin (- (3 / 2)))"
    by (simp add: coerce_eval)
  have "build_column_map ?cols = Inr ?cm"
    using cm(1,2) by (rule build_column_map_resolved)
  then show ?thesis
    by (simp add: load_frame_def frame_eval cm ti tf float_ge0_def)
qed

theorem build_app_df_sign_witness:
  "(let df = \<lparr>columns = [''Model'', ''Description'', ''Stock'', ''Price''],
               rows = [[''Model'' \<mapsto> Scalar ''M100'', ''Description'' \<mapsto> Scalar ''Blade'',
                        ''Stock'' \<mapsto> Scalar ''7'', ''Price'' \<mapsto> Scalar ''1,234.5''],
                       [''Model'' \<mapsto> Scalar ''M-200'', ''Description'' \<mapsto> Scalar ''Belt'',
                        ''Stock'' \<mapsto> Scalar ''-0.5'', ''Price'' \<mapsto> Scalar ''1e-05'']]\<rparr>;
        colmap = [''model'' \<mapsto> ''Model'', ''material_description'' \<mapsto> ''Description'',
                  ''stock'' \<mapsto> ''Stock'', ''price'' \<mapsto> ''Price''];
        r0 = \<lparr>model = ''M100'', material_description = ''Blade'', shrm = [], home = [],
              stock = 7, used_spares = 0, price = Fin (2469 / 2)\<rparr>;
        r1 = \<lparr>model = ''M-200'', material_description = ''Belt'', shrm = [], home = [],
              stock = 0, used_spares = 0,
              price = Fin (5902958103587057 / 590295810358705651712)\<rparr>
    in build_app_df df colmap = Inr [r0, r1] \<and> (0::nat) < length [r0, r1]
       \<and> to_int (Scalar ''7'') = Inr (stock r0) \<and> used_spares r0 = 0
       \<and> to_float (Scalar ''1,234.5'') = Inr (price r0)
       \<and> CHR ''-'' \<notin> set ''7'' \<and> CHR ''-'' \<notin> set ''1,234.5''
       \<and> 0 \<le> stock r0 \<and> 0 \<le> used_spares r0 \<and> float_ge0 (price r0)
       \<and> to_int (Scalar ''-0.5'') = Inr (stock r1)
       \<and> to_float (Scalar ''1e-05'') = Inr (price r1)
       \<and> 0 \<le> stock r1 \<and> float_ge0 (price r1))"
proof -
  let ?row0 = "[''Model'' \<mapsto> Scalar ''M100'', ''Description'' \<mapsto> Scalar ''Blade'',
               ''Stock'' \<mapsto> Scalar ''7'', ''Price'' \<mapsto> Scalar ''1,234.5'']"
  let ?row1 = "[''Model'' \<mapsto> Scalar ''M-200'', ''Description'' \<mapsto> Scalar ''Belt'',
               ''Stock'' \<mapsto> Scalar ''-0.5'', ''Price'' \<mapsto> Scalar ''1e-05'']"
  let ?df = "\<lparr>columns = [''Model'', ''Description'', ''Stock'', ''Price''],
              rows = [?row0, ?row1]\<rparr>"
  let ?cm = "[''model'' \<mapsto> ''Model'', ''material_description'' \<mapsto> ''Description'',
              ''stock'' \<mapsto> ''Stock'', ''price'' \<mapsto> ''Price'']"
  let ?r0 = "\<lparr>model = ''M100'', material_description = ''Blade'', shrm = [], home = [],
             stock = 7, used_spares = 0, price = Fin (2469 / 2)\<rparr>"
  let ?r1 = "\<lparr>model = ''M-200'', material_description = ''Belt'', shrm = [], home = [],
              stock = 0, used_spares = 0,
              price = Fin (5902958103587057 / 590295810358705651712)\<rparr>"
  have ti: "to_int (Scalar ''7'') = Inr 7"
    by (simp add: coerce_eval)
  have tf: "to_float (Scalar ''1,234.5'') = Inr (Fin (2469 / 2))"
    by (simp add: coerce_eval)
  have fl: "\<lfloor>(1::rat) / 2\<rfloor> = 0"
    using floor_divide_of_int_eq [of 1 2, where ?'a = rat] by simp
  have ti1: "to_int (Scalar ''-0.5'') = Inr 0"
    by (simp add: coerce_eval fl)
  have tf1: "to_float (Scalar ''1e-05'') = Inr (Fin (5902958103587057 / 590295810358705651712))"
    by (simp add: coerce_eval)
  have ev: "build_app_df ?df ?cm = Inr [?r0, ?r1]"
    by (simp add: frame_eval ti tf ti1 tf1)
  have i: "(0::nat) < length [?r0, ?r1]" by simp
  have nm: "\<forall>key \<in> {''stock'', ''used_spares'', ''price''}. \<forall>c s.
              cell_of (rows ?df ! 0) ?cm key = Some c \<longrightarrow> py_str c = Inr s
              \<longrightarrow> CHR ''-'' \<notin> set s"
    by (auto simp: cell_of_def py_str_def split: if_splits)
  from build_app_df_sign [OF ev i] nm
  have "0 \<le> stock ([?r0, ?r1] ! 0) \<and> 0 \<le> used_spares ([?r0, ?r1] ! 0)
          \<and> (price ([?r0, ?r1] ! 0) = NaN \<or> float_ge0 (price ([?r0, ?r1] ! 0)))"
    by blast
  then have "0 \<le> stock ?r0 \<and> 0 \<le> used_spares ?r0 \<and> float_ge0 (price ?r0)"
    by simp
  with ev ti tf ti1 tf1 show ?thesis
    by (simp add: Let_def float_ge0_def)
qed

subsection \<open>Search/Match Engine\<close>

lemma special_not_alnum: "c \<in> set re_special \<Longrightarrow> \<not> is_alnum c"
  by (auto simp: re_special_def backslash_def is_alnum_def is_lower_alnum_def
      ascii_uppercase_def ascii_lowercase_def ascii_digits_def)

lemma not_special_literal:
  "c \<notin> set re_special \<Longrightarrow> c \<noteq> backslash \<and> c \<noteq> CHR ''^'' \<and> c \<notin> set re_meta"
  by (auto simp: re_special_def re_meta_def backslash_def)

lemma re_tokens_escape: "re_tokens (re_escape q) = Some (map Lit q)"
proof (induction q)
  case Nil
  then show ?case by (simp add: re_escape_def)
next
  case (Cons c q)
  have step: "re_escape (c # q) = (if c \<in> set re_special then [backslash, c] else [c]) @ re_escape q"
    by (simp add: re_escape_def)
  show ?case
  proof (cases "c \<in> set re_special")
    case True
    with Cons special_not_alnum [OF True] show ?thesis
      by (simp add: step)
  next
    case False
    with Cons not_special_literal [OF False] show ?thesis
      by (simp add: step)
  qed
qed

lemma re_tokens_caret_escape: "re_tokens (CHR ''^'' # re_escape q) = Some (Bol # map Lit q)"
  by (simp add: re_tokens_escape backslash_def)

lemma match_here_literals:
  "match_here (map Lit q) s b \<longleftrightarrow> prefix (py_lower q) (py_lower s)"
proof (induction q arbitrary: s b)
  case Nil
  then show ?case by (simp add: py_lower_def)
next
  case (Cons c q)
  then show ?case
    by (cases s) (auto simp: py_lower_def)
qed

lemma search_from_literals:
  "search_from (map Lit q) s b \<longleftrightarrow> sublist (py_lower q) (py_lower s)"
proof (induction s arbitrary: b)
  case Nil
  then show ?case
    by (cases q) (simp_all add: py_lower_def)
next
  case (Cons x s)
  have "sublist (py_lower q) (py_lower (x # s))
          \<longleftrightarrow> prefix (py_lower q) (py_lower (x # s)) \<or> sublist (py_lower q) (py_lower s)"
    by (simp add: py_lower_def sublist_Cons_right)
  with Cons show ?case
    by (simp add: match_here_literals)
qed

lemma str_contains_escape: "str_contains (re_escape q) s = Some (ci_contains q s)"
  by (simp add: str_contains_def re_tokens_escape search_from_literals ci_contains_def)

lemma str_match_escape: "str_match (CHR ''^'' # re_escape q) s = Some (ci_startswith q s)"
  unfolding str_match_def re_tokens_caret_escape
  by (simp add: match_here_literals ci_startswith_def)

lemma select_total:
  assumes "\<And>r. mask_of r = Some (P r)"
  shows "select mask_of df = Some (filter P df)"
  by (induction df) (simp_all add: assms)

lemma str_in_sublist: "str_in sub s \<longleftrightarrow> sublist sub s"
  by (induction s) (simp_all add: sublist_Cons_right)

lemma split_once_None: "sep \<noteq> [] \<Longrightarrow> split_once sep s = None \<longleftrightarrow> \<not> sublist sep s"
  by (induction s) (auto simp: sublist_Cons_right)

lemma split_once_Some:
  assumes "sep \<noteq> []"
  shows "split_once sep s = Some (a, b)
         \<longleftrightarrow> s = a @ sep @ b \<and> (\<forall>a' b'. s = a' @ sep @ b' \<longrightarrow> length a \<le> length a')"
proof (induction s arbitrary: a)
  case Nil
  with assms show ?case by simp
next
  case (Cons c s)
  show ?case
  proof (cases "prefix sep (c # s)")
    case True
    then obtain t where t: "c # s = sep @ t" by (auto simp: prefix_def)
    have "split_once sep (c # s) = Some ([], drop (length sep) (c # s))"
      using True by simp
    moreover have "drop (length sep) (c # s) = t"
      unfolding t by simp
    ultimately have "split_once sep (c # s) = Some (a, b) \<longleftrightarrow> a = [] \<and> b = t"
      by auto
    moreover have "(c # s = a @ sep @ b
        \<and> (\<forall>a' b'. c # s = a' @ sep @ b' \<longrightarrow> length a \<le> length a')) \<longleftrightarrow> a = [] \<and> b = t"
    proof
      assume r: "c # s = a @ sep @ b
        \<and> (\<forall>a' b'. c # s = a' @ sep @ b' \<longrightarrow> length a \<le> length a')"
      with t have "length a \<le> length ([]::string)" by (metis append_Nil)
      then have "a = []" by simp
      with r t show "a = [] \<and> b = t" by simp
    next
      assume "a = [] \<and> b = t"
      with t show "c # s = a @ sep @ b
        \<and> (\<forall>a' b'. c # s = a' @ sep @ b' \<longrightarrow> length a \<le> length a')" by simp
    qed
    ultimately show ?thesis by simp
  next
    case False
    have np: "\<And>b'. c # s \<noteq> sep @ b'"
      using False by (auto simp: prefix_def)
    show ?thesis
    proof
      assume "split_once sep (c # s) = Some (a, b)"
      with False obtain a0 where a0: "split_once sep s = Some (a0, b)" and a: "a = c # a0"
        by auto
      from Cons.IH [of a0] a0 have s: "s = a0 @ sep @ b"
        and mn: "\<forall>a' b'. s = a' @ sep @ b' \<longrightarrow> length a0 \<le> length a'" by simp_all
      have "length a \<le> length a'" if "c # s = a' @ sep @ b'" for a' b'
      proof (cases a')
        case Nil
        with that np show ?thesis by simp
      next
        case (Cons x a'')
        with that have "s = a'' @ sep @ b'" by simp
        with mn have "length a0 \<le> length a''" by blast
        with a Cons show ?thesis by simp
      qed
      with s a show "c # s = a @ sep @ b
        \<and> (\<forall>a' b'. c # s = a' @ sep @ b' \<longrightarrow> length a \<le> length a')" by simp
    next
      assume r: "c # s = a @ sep @ b
        \<and> (\<forall>a' b'. c # s = a' @ sep @ b' \<longrightarrow> length a \<le> length a')"
      with np obtain a0 where a: "a = c # a0" by (cases a) auto
      with r have s: "s = a0 @ sep @ b" by simp
      have "length a0 \<le> length a'" if "s = a' @ sep @ b'" for a' b'
      proof -
        from that have "c # s = (c # a') @ sep @ b'" by simp
        with r have "length a \<le> length (c # a')" by blast
        with a show ?thesis by simp
      qed
      with s Cons.IH [of a0] have "split_once sep s = Some (a0, b)" by blast
      with False a show "split_once sep (c # s) = Some (a, b)" by simp
    qed
  qed
qed


lemma filter_mask_separator:
  assumes "split_once separator q = Some (m, d)"
  shows "filter_mask q r
         = Some (ci_contains m (model r) \<and> ci_contains d (material_description r))"
proof -
  from assms have "str_in separator q"
    using split_once_None [of separator q] by (simp add: str_in_sublist separator_def)
  with assms show ?thesis
    by (simp add: filter_mask_def py_split1_def str_contains_escape mask_and_def)
qed

lemma add_mask_separator:
  assumes "split_once separator q = Some (m, d)"
  shows "add_mask q r
         = Some (ci_contains m (model r) \<and> ci_contains d (material_description r))"
proof -
  from assms have "str_in separator q"
    using split_once_None [of separator q] by (simp add: str_in_sublist separator_def)
  with assms show ?thesis
    by (simp add: add_mask_def py_split1_def str_contains_escape mask_and_def)
qed

lemma filter_mask_plain:
  assumes "\<not> sublist separator q"
  shows "filter_mask q r
         = Some (ci_contains q (model r) \<or> ci_contains q (material_description r))"
  using assms by (simp add: filter_mask_def str_in_sublist str_contains_escape mask_or_def)

lemma add_mask_plain:
  assumes "\<not> sublist separator q"
  shows "add_mask q r
         = Some (ci_startswith q (model r) \<or> ci_contains q (material_description r))"
  using assms
  by (simp add: add_mask_def str_in_sublist str_contains_escape str_match_escape mask_or_def)

lemma first_split_exists:
  assumes "sublist separator q"
  shows "\<exists>m d. q = m @ separator @ d
           \<and> (\<forall>m' d'. q = m' @ separator @ d' \<longrightarrow> length m \<le> length m')"
proof -
  have ne: "separator \<noteq> []" by (simp add: separator_def)
  from assms split_once_None [OF ne, of q] obtain m d where "split_once separator q = Some (m, d)"
    by (cases "split_once separator q") auto
  with split_once_Some [OF ne, of q m d] show ?thesis by blast
qed

text \<open>
  C1. For a query \<open>q\<close> that is not empty, the live filter of tab 1 shows the records of
  the table, in their order, that match \<open>q\<close>. When \<open>q\<close> contains the separator
  \<open>" - "\<close> and \<open>m\<close>, \<open>d\<close> are the parts before and after its first occurrence, a record
  matches iff its model contains \<open>m\<close> and its description contains \<open>d\<close>; when \<open>q\<close> does
  not contain the separator, a record matches iff its model or its description contains
  \<open>q\<close>. Containment is of literal strings without regard to letter case: the pattern is
  \<open>re.escape\<close> of the string, and no character of it acts as a metacharacter.
\<close>

theorem live_filter_matches:
  assumes "q \<noteq> []"
  shows "(sublist separator q \<longrightarrow>
            (\<exists>m d. q = m @ separator @ d
               \<and> (\<forall>m' d'. q = m' @ separator @ d' \<longrightarrow> length m \<le> length m')))
       \<and> (\<forall>m d. q = m @ separator @ d
               \<and> (\<forall>m' d'. q = m' @ separator @ d' \<longrightarrow> length m \<le> length m')
             \<longrightarrow> (\<forall>r. filter_mask q r
                        = Some (ci_contains m (model r) \<and> ci_contains d (material_description r)))
               \<and> tab1_view q df
                   = Some (Spare_rows
                       (filter (\<lambda>r. ci_contains m (model r)
                                    \<and> ci_contains d (material_description r)) df)))
       \<and> (\<not> sublist separator q \<longrightarrow>
             (\<forall>r. filter_mask q r
                    = Some (ci_contains q (model r) \<or> ci_contains q (material_description r)))
             \<and> tab1_view q df
                 = Some (Spare_rows
                     (filter (\<lambda>r. ci_contains q (model r)
                                  \<or> ci_contains q (material_description r)) df)))"
proof -
  have ne: "separator \<noteq> []" by (simp add: separator_def)
  have sep: "(\<forall>r. filter_mask q r
                = Some (ci_contains m (model r) \<and> ci_contains d (material_description r)))
         \<and> tab1_view q df
              = Some (Spare_rows
                  (filter (\<lambda>r. ci_contains m (model r)
                               \<and> ci_contains d (material_description r)) df))"
    if "q = m @ separator @ d
          \<and> (\<forall>m' d'. q = m' @ separator @ d' \<longrightarrow> length m \<le> length m')" for m d
  proof -
    from that split_once_Some [OF ne, of q m d]
    have sp: "split_once separator q = Some (m, d)" by blast
    have "select (filter_mask q) df
            = Some (filter (\<lambda>r. ci_contains m (model r)
                                \<and> ci_contains d (material_description r)) df)"
      by (rule select_total) (rule filter_mask_separator [OF sp])
    with assms filter_mask_separator [OF sp] show ?thesis
      by (simp add: tab1_view_def)
  qed
  have plain: "(\<forall>r. filter_mask q r
                    = Some (ci_contains q (model r) \<or> ci_contains q (material_description r)))
             \<and> tab1_view q df
                 = Some (Spare_rows
                     (filter (\<lambda>r. ci_contains q (model r)
                                  \<or> ci_contains q (material_description r)) df))"
    if ns: "\<not> sublist separator q"
  proof -
    have "select (filter_mask q) df
            = Some (filter (\<lambda>r. ci_contains q (model r)
                                \<or> ci_contains q (material_description r)) df)"
      by (rule select_total) (rule filter_mask_plain [OF ns])
    with assms filter_mask_plain [OF ns] show ?thesis
      by (simp add: tab1_view_def)
  qed
  from first_split_exists sep plain show ?thesis by blast
qed

lemma lower_samples:
  "py_lower ''m1'' = ''m1''" "py_lower ''bl'' = ''bl''" "py_lower ''BLADE'' = ''blade''"
  "py_lower ''.'' = ''.''" "py_lower ''100'' = ''100''"
  "py_lower ''M100'' = ''m100''" "py_lower ''M101'' = ''m101''" "py_lower ''X5'' = ''x5''"
  "py_lower ''Blade'' = ''blade''" "py_lower ''Carbon Brush'' = ''carbon brush''"
  "py_lower ''Blade M1 guard'' = ''blade m1 guard''"
  by (simp_all add: str_eval)

lemmas sublist_eval = ci_contains_def ci_startswith_def lower_samples sublist_Cons_right

theorem live_filter_matches_witness:
  "(let rA = \<lparr>model = ''M100'', material_description = ''Blade'', shrm = ''N-A'', home = ''N-A'',
               stock = 3, used_spares = 1, price = Fin 250\<rparr>;
        rB = \<lparr>model = ''M101'', material_description = ''Carbon Brush'', shrm = ''N-A'',
               home = ''N-A'', stock = 0, used_spares = 0, price = Fin 40\<rparr>;
        rC = \<lparr>model = ''X5'', material_description = ''Blade M1 guard'', shrm = ''N-A'',
               home = ''N-A'', stock = 2, used_spares = 0, price = Fin 90\<rparr>;
        df = [rA, rB, rC]
    in ''m1 - bl'' \<noteq> [] \<and> sublist separator ''m1 - bl''
       \<and> ''m1 - bl'' = ''m1'' @ separator @ ''bl''
       \<and> tab1_view ''m1 - bl'' df = Some (Spare_rows [rA])
       \<and> ''BLADE'' \<noteq> [] \<and> \<not> sublist separator ''BLADE''
       \<and> tab1_view ''BLADE'' df = Some (Spare_rows [rA, rC])
       \<and> ''.'' \<noteq> [] \<and> \<not> sublist separator ''.''
       \<and> tab1_view ''.'' df = Some (Spare_rows []))"
proof -
  let ?rA = "\<lparr>model = ''M100'', material_description = ''Blade'', shrm = ''N-A'', home = ''N-A'',
               stock = 3, used_spares = 1, price = Fin 250\<rparr>"
  let ?rB = "\<lparr>model = ''M101'', material_description = ''Carbon Brush'', shrm = ''N-A'',
               home = ''N-A'', stock = 0, used_spares = 0, price = Fin 40\<rparr>"
  let ?rC = "\<lparr>model = ''X5'', material_description = ''Blade M1 guard'', shrm = ''N-A'',
               home = ''N-A'', stock = 2, used_spares = 0, price = Fin 90\<rparr>"
  let ?df = "[?rA, ?rB, ?rC]"
  have ne: "separator \<noteq> []" by (simp add: separator_def)
  have s1: "sublist separator ''m1 - bl''"
    by (simp add: separator_def sublist_Cons_right)
  have "split_once separator ''m1 - bl'' = Some (''m1'', ''bl'')"
    by (simp add: separator_def)
  with split_once_Some [OF ne, of "''m1 - bl''" "''m1''" "''bl''"]
  have f1: "''m1 - bl'' = ''m1'' @ separator @ ''bl''
      \<and> (\<forall>m' d'. ''m1 - bl'' = m' @ separator @ d' \<longrightarrow> length ''m1'' \<le> length m')"
    by blast
  have s2: "\<not> sublist separator ''BLADE''"
    by (simp add: separator_def sublist_Cons_right)
  have s3: "\<not> sublist separator ''.''"
    by (simp add: separator_def sublist_Cons_right)
  have v1: "tab1_view ''m1 - bl'' ?df
              = Some (Spare_rows
                  (filter (\<lambda>r. ci_contains ''m1'' (model r)
                               \<and> ci_contains ''bl'' (material_description r)) ?df))"
    using live_filter_matches [of "''m1 - bl''" ?df] f1 by blast
  have v2: "tab1_view ''BLADE'' ?df
              = Some (Spare_rows
                  (filter (\<lambda>r. ci_contains ''BLADE'' (model r)
                               \<or> ci_contains ''BLADE'' (material_description r)) ?df))"
    using live_filter_matches [of "''BLADE''" ?df] s2 by blast
  have v3: "tab1_view ''.'' ?df
              = Some (Spare_rows
                  (filter (\<lambda>r. ci_contains ''.'' (model r)
                               \<or> ci_contains ''.'' (material_description r)) ?df))"
    using live_filter_matches [of "''.''" ?df] s3 by blast
  have e1: "tab1_view ''m1 - bl'' ?df = Some (Spare_rows [?rA])"
    unfolding v1 by (simp add: sublist_eval)
  have e2: "tab1_view ''BLADE'' ?df = Some (Spare_rows [?rA, ?rC])"
    unfolding v2 by (simp add: sublist_eval)
  have e3: "tab1_view ''.'' ?df = Some (Spare_rows [])"
    unfolding v3 by (simp add: sublist_eval)
  have n: "''m1 - bl'' \<noteq> []" "''BLADE'' \<noteq> []" "''.'' \<noteq> []"
    by simp_all
  show ?thesis
    unfolding Let_def using n s1 f1 s2 s3 e1 e2 e3 by blast
qed

text \<open>
  C3. For a query \<open>q\<close> that is not empty and does not contain the separator, the hits
  of Add to List are the records, in their order, whose model starts with \<open>q\<close> or
  whose description contains \<open>q\<close>, as literal strings without regard to letter case. A
  record whose model contains \<open>q\<close> but does not start with it, and whose description
  does not contain \<open>q\<close>, is matched by the live filter and is no hit of Add to List.
\<close>

theorem add_hits_matches:
  assumes "q \<noteq> []" and "\<not> sublist separator q"
  shows "(\<forall>r. add_mask q r
               = Some (ci_startswith q (model r) \<or> ci_contains q (material_description r)))
       \<and> add_hits q df
           = Some (filter (\<lambda>r. ci_startswith q (model r)
                               \<or> ci_contains q (material_description r)) df)
       \<and> (\<forall>r. ci_contains q (model r) \<and> \<not> ci_startswith q (model r)
                \<and> \<not> ci_contains q (material_description r)
              \<longrightarrow> filter_mask q r = Some True \<and> add_mask q r = Some False)"
proof -
  have "select (add_mask q) df
          = Some (filter (\<lambda>r. ci_startswith q (model r)
                              \<or> ci_contains q (material_description r)) df)"
    by (rule select_total) (rule add_mask_plain [OF assms(2)])
  then show ?thesis
    by (simp add: add_hits_def add_mask_plain [OF assms(2)] filter_mask_plain [OF assms(2)])
qed

theorem add_hits_matches_witness:
  "(let rA = \<lparr>model = ''M100'', material_description = ''Blade'', shrm = ''N-A'', home = ''N-A'',
               stock = 3, used_spares = 1, price = Fin 250\<rparr>;
        rB = \<lparr>model = ''X5'', material_description = ''Blade M1 guard'', shrm = ''N-A'',
               home = ''N-A'', stock = 2, used_spares = 0, price = Fin 90\<rparr>
    in ''100'' \<noteq> [] \<and> \<not> sublist separator ''100''
       \<and> add_hits ''100'' [rA, rB] = Some []
       \<and> ci_contains ''100'' (model rA) \<and> \<not> ci_startswith ''100'' (model rA)
       \<and> \<not> ci_contains ''100'' (material_description rA)
       \<and> filter_mask ''100'' rA = Some True \<and> add_mask ''100'' rA = Some False
       \<and> ''m1'' \<noteq> [] \<and> \<not> sublist separator ''m1''
       \<and> add_hits ''m1'' [rA, rB] = Some [rA, rB])"
proof -
  let ?rA = "\<lparr>model = ''M100'', material_description = ''Blade'', shrm = ''N-A'', home = ''N-A'',
               stock = 3, used_spares = 1, price = Fin 250\<rparr>"
  let ?rB = "\<lparr>model = ''X5'', material_description = ''Blade M1 guard'', shrm = ''N-A'',
               home = ''N-A'', stock = 2, used_spares = 0, price = Fin 90\<rparr>"
  have s1: "\<not> sublist separator ''100''"
    by (simp add: separator_def sublist_Cons_right)
  have s2: "\<not> sublist separator ''m1''"
    by (simp add: separator_def sublist_Cons_right)
  have c: "ci_contains ''100'' (model ?rA)" "\<not> ci_startswith ''100'' (model ?rA)"
    "\<not> ci_contains ''100'' (material_description ?rA)"
    by (simp_all add: sublist_eval)
  note t1 = add_hits_matches [of "''100''" "[?rA, ?rB]", OF _ s1]
  note t2 = add_hits_matches [of "''m1''" "[?rA, ?rB]", OF _ s2]
  have h1: "add_hits ''100'' [?rA, ?rB]
              = Some (filter (\<lambda>r. ci_startswith ''100'' (model r)
                                  \<or> ci_contains ''100'' (material_description r)) [?rA, ?rB])"
    using t1 by simp
  have m1: "filter_mask ''100'' ?rA = Some True \<and> add_mask ''100'' ?rA = Some False"
    using t1 c by blast
  have h2: "add_hits ''m1'' [?rA, ?rB]
              = Some (filter (\<lambda>r. ci_startswith ''m1'' (model r)
                                  \<or> ci_contains ''m1'' (material_description r)) [?rA, ?rB])"
    using t2 by simp
  have e1: "add_hits ''100'' [?rA, ?rB] = Some []"
    unfolding h1 by (simp add: sublist_eval)
  have e2: "add_hits ''m1'' [?rA, ?rB] = Some [?rA, ?rB]"
    unfolding h2 by (simp add: sublist_eval)
  have n: "''100'' \<noteq> []" "''m1'' \<noteq> []"
    by simp_all
  show ?thesis
    unfolding Let_def using n s1 s2 c m1 e1 e2 by blast
qed

end
